theory Spec2Isabelle
  imports Main "HOL-Library.AList"
begin

section \<open>Python dictionaries\<close>

text \<open>
  A Python \<open>dict\<close> is an association list: \<open>keys\<close> lists the keys in the
  dictionary's iteration order, \<open>contains\<close> is \<open>k in d\<close>, \<open>getitem\<close> is
  \<open>d[k]\<close> (a missing key raises \<open>KeyError\<close>) and \<open>setitem\<close> is \<open>d[k] = v\<close>
  (an existing key keeps its place, a new key goes to the end).
\<close>

type_synonym ('k, 'v) dict = "('k \<times> 'v) list"

datatype py_error =
    KeyError
  | ValueError string
  | TypeError string
  | AttributeError string
  | SimMergeError string
  | SimStateError string

definition keys :: "('k, 'v) dict \<Rightarrow> 'k list" where
  "keys d = remdups (map fst d)"

definition contains :: "('k, 'v) dict \<Rightarrow> 'k \<Rightarrow> bool" where
  "contains d k = (map_of d k \<noteq> None)"

definition getitem :: "('k, 'v) dict \<Rightarrow> 'k \<Rightarrow> py_error + 'v" where
  "getitem d k = (case map_of d k of None \<Rightarrow> Inl KeyError | Some v \<Rightarrow> Inr v)"

definition setitem :: "('k, 'v) dict \<Rightarrow> 'k \<Rightarrow> 'v \<Rightarrow> ('k, 'v) dict" where
  "setitem d k v = AList.update k v d"

section \<open>The globals plugin (state\_plugins/globals.py)\<close>

text \<open>
  \<open>SimStateGlobals\<close> wraps one dictionary, \<open>_backer\<close>; the model identifies the
  plugin with it. \<open>merge\<close> is the double loop of the source:
  \<^verbatim>\<open>
    for other in others:
        for k in other.keys():
            if k not in self:
                self[k] = other[k]
    return True
  \<close>
  \<open>merge_keys\<close> is the inner loop over the keys of one \<open>other\<close>, \<open>merge_others\<close>
  the outer loop. The receiver is mutated in place; the model returns it with the flag.
  The arguments \<open>merge_conditions\<close> and \<open>common_ancestor\<close> are not read by the source.
\<close>

fun merge_keys :: "('k, 'v) dict \<Rightarrow> ('k, 'v) dict \<Rightarrow> 'k list \<Rightarrow> py_error + ('k, 'v) dict" where
  "merge_keys self other [] = Inr self"
| "merge_keys self other (k # ks) =
     (if \<not> contains self k then
        (case getitem other k of
           Inl e \<Rightarrow> Inl e
         | Inr v \<Rightarrow> merge_keys (setitem self k v) other ks)
      else merge_keys self other ks)"

fun merge_others :: "('k, 'v) dict \<Rightarrow> ('k, 'v) dict list \<Rightarrow> py_error + ('k, 'v) dict" where
  "merge_others self [] = Inr self"
| "merge_others self (other # others) =
     (case merge_keys self other (keys other) of
        Inl e \<Rightarrow> Inl e
      | Inr self' \<Rightarrow> merge_others self' others)"

definition globals_merge ::
  "('k, 'v) dict \<Rightarrow> ('k, 'v) dict list \<Rightarrow> 'c \<Rightarrow> 'a \<Rightarrow> py_error + (('k, 'v) dict \<times> bool)" where
  "globals_merge self others merge_conditions common_ancestor =
     (case merge_others self others of
        Inl e \<Rightarrow> Inl e
      | Inr self' \<Rightarrow> Inr (self', True))"

text \<open>\<open>widen\<close> only logs a warning and returns \<open>False\<close>.\<close>

definition globals_widen :: "('k, 'v) dict \<Rightarrow> ('k, 'v) dict list \<Rightarrow> ('k, 'v) dict \<times> bool" where
  "globals_widen self others = (self, False)"

text \<open>
  The value a key absent from the receiver ends up with: that of the first of
  \<open>others\<close> holding the key.
\<close>

fun first_writer :: "('k, 'v) dict list \<Rightarrow> 'k \<Rightarrow> 'v option" where
  "first_writer [] k = None"
| "first_writer (other # others) k =
     (case map_of other k of Some v \<Rightarrow> Some v | None \<Rightarrow> first_writer others k)"

section \<open>Expressions, options, plugins\<close>

text \<open>
  The constraint algebra (claripy) is an external collaborator; its expressions are
  modelled as terms. Only the constructors the source applies appear:
  \<open>claripy.true\<close> is \<open>BoolV True\<close>, \<open>se.BVS(name, bits)\<close> is \<open>BVS name bits\<close>,
  \<open>a == b\<close> is \<open>OpEq a b\<close> (a Python integer operand is \<open>IntV\<close>),
  \<open>claripy.Not\<close>, \<open>And\<close> and \<open>Or\<close> are \<open>OpNot\<close>, \<open>OpAnd\<close>, \<open>OpOr\<close>.
\<close>

datatype ast =
    BoolV bool
  | IntV int
  | BVS string nat
  | OpEq ast ast
  | OpNot ast
  | OpAnd "ast list"
  | OpOr "ast list"

text \<open>The members of \<open>sim_options\<close> that the source tests.\<close>

datatype sim_option =
    TRACK_CONSTRAINTS | SIMPLIFY_CONSTRAINTS | TRACK_CONSTRAINT_ACTIONS
  | ABSTRACT_SOLVER | SYMBOLIC | IGNORE_MERGE_CONDITIONS | IGNORE_EXIT_GUARDS
  | ABSTRACT_MEMORY | FAST_MEMORY | FAST_REGISTERS
  | STRICT_PAGE_ACCESS | ENABLE_NX | SUPER_FASTPATH | BYPASS_UNSUPPORTED_IRDIRTY
  | TRACK_JMP_ACTIONS | CALLLESS | DO_RET_EMULATION | TRUE_RET_EMULATION_GUARD
  | OPTIMIZE_IR

datatype action =
    SimActionConstraint ast
  | SimActionExit ast string
  | OtherAction string

text \<open>
  An IR block as the engine reads it. Of a statement the engine itself reads only its
  kind, the address, length and delta of an instruction mark, and the temporary and
  callee name of a dirty call; what else a statement holds is opaque. \<open>irsb_id\<close>
  stands for the identity of the block object: every call of the lifter makes a new
  object.
\<close>

datatype stmt =
    IMark int nat int
  | Exit nat
  | Dirty int string
  | OtherStmt nat

record irsb =
  irsb_id :: nat
  statements :: "stmt list"
  irsb_size :: int
  irsb_next :: nat
  irsb_jumpkind :: string
  direct_next :: bool
  irsb_tyenv :: nat

text \<open>
  The per-block scratch plugin, with the attributes the engine reads and assigns.
\<close>

record scratch =
  guard :: ast
  ins_addr :: int
  num_insns :: int
  stmt_idx :: nat
  dirty_addrs :: "int set"
  temps :: "(int, ast) dict"
  sim_procedure :: "string option"
  tyenv :: "nat option"
  irsb :: "irsb option"

text \<open>
  A plugin instance. The globals plugin is the one of this repository; the solver
  plugin is its constraint store; the inspector carries the attribute
  \<open>added_constraints\<close> when a breakpoint dispatch has set it; every other plugin
  (memory, registers, history, unicorn, ...) is a class name with opaque content.
\<close>

datatype plugin =
    SimStateGlobals "(string, int) dict"
  | SimSolver "ast list"
  | SimStateScratch scratch
  | SimInspector "ast list option"
  | OtherPlugin string string

fun plugin_class :: "plugin \<Rightarrow> string" where
  "plugin_class (SimStateGlobals b) = ''SimStateGlobals''"
| "plugin_class (SimSolver cs) = ''SimSolver''"
| "plugin_class (SimStateScratch sc) = ''SimStateScratch''"
| "plugin_class (SimInspector a) = ''SimInspector''"
| "plugin_class (OtherPlugin cls content) = cls"

text \<open>
  What the plugin classes outside this repository do is a parameter: \<open>copy\<close>,
  \<open>merge\<close> and \<open>widen\<close> of a plugin (each of the last two returns the mutated
  receiver with its changed-report, or raises), the registry \<open>default_plugins\<close>
  (taken to hold a class for every name) and the constructor of a class by name.
  \<open>widen_plugin\<close> and \<open>merge_plugin\<close> take the name the receiver is registered
  under as their first argument.
\<close>

record plugin_ops =
  copy_plugin :: "plugin \<Rightarrow> plugin"
  merge_plugin :: "string \<Rightarrow> plugin \<Rightarrow> plugin list \<Rightarrow> ast list \<Rightarrow> plugin option
                   \<Rightarrow> py_error + (plugin \<times> bool)"
  widen_plugin :: "string \<Rightarrow> plugin \<Rightarrow> plugin list \<Rightarrow> py_error + (plugin \<times> bool)"
  default_plugins :: "string \<Rightarrow> plugin"
  new_plugin :: "string \<Rightarrow> plugin"

text \<open>
  The solver interface \<open>state.se\<close>, the history plugin's methods, the value-set
  replacement in registers and memory regions, and breakpoint dispatch are external
  too. \<open>se_add\<close> maps the solver plugin and the new constraints to the mutated
  plugin and the list \<open>added\<close>; \<open>bp_action\<close> is \<open>inspect.action(event, when, ...)\<close>, acting on the
  plugins.
\<close>

datatype bp_when = BP_BEFORE | BP_AFTER

datatype bp_arg =
    NoArg
  | Address int
  | Statement nat
  | Instruction int
  | AddedConstraints "ast list"

record solver_env =
  simplify :: "ast \<Rightarrow> ast"
  is_false :: "ast \<Rightarrow> bool"
  is_true :: "ast \<Rightarrow> bool"
  vsa_is_false :: "ast \<Rightarrow> bool"
  vsa_is_true :: "ast \<Rightarrow> bool"
  symbolic :: "ast \<Rightarrow> bool"
  se_add :: "plugin \<Rightarrow> ast list \<Rightarrow> plugin \<times> ast list"
  se_satisfiable :: "plugin \<Rightarrow> ast list \<Rightarrow> bool"
  constraint_to_si :: "ast \<Rightarrow> (ast \<times> ast) list"
  has_variables :: "ast \<Rightarrow> bool"
  replace_all :: "plugin \<Rightarrow> ast \<Rightarrow> ast \<Rightarrow> plugin"
  regions_replace_all :: "plugin \<Rightarrow> ast \<Rightarrow> ast \<Rightarrow> plugin"
  history_add_action :: "plugin \<Rightarrow> action \<Rightarrow> plugin"
  history_set_parent :: "plugin \<Rightarrow> plugin \<Rightarrow> plugin"
  bp_action :: "string \<Rightarrow> bp_when \<Rightarrow> bp_arg \<Rightarrow> (string, plugin) dict \<Rightarrow> (string, plugin) dict"

section \<open>The state (sim\_state.py)\<close>

record arch_info =
  arch_name :: string
  arch_arm :: bool

record sim_state =
  arch :: arch_info
  options :: "sim_option set"
  mode :: "string option"
  os_name :: "string option"
  plugins :: "(string, plugin) dict"
  satisfiable_flag :: bool
  global_condition :: "ast option"
  ip_constraints :: "ast list"

subsection \<open>Plugins of a state\<close>

definition has_plugin :: "sim_state \<Rightarrow> string \<Rightarrow> bool" where
  "has_plugin s name = contains (plugins s) name"

text \<open>
  \<open>register_plugin\<close> binds the plugin to the state (\<open>set_state\<close>, \<open>init_state\<close>: a
  back reference, which a value has not) and stores it under the name.
\<close>

definition register_plugin :: "string \<Rightarrow> plugin \<Rightarrow> sim_state \<Rightarrow> sim_state" where
  "register_plugin name p s = s\<lparr>plugins := setitem (plugins s) name p\<rparr>"

definition release_plugin :: "string \<Rightarrow> sim_state \<Rightarrow> sim_state" where
  "release_plugin name s =
     (if contains (plugins s) name then s\<lparr>plugins := AList.delete name (plugins s)\<rparr> else s)"

text \<open>
  The registry of default classes: \<open>globals.py\<close> registers \<open>SimStateGlobals\<close>
  under \<open>globals\<close>, whose constructor starts from an empty dictionary.
\<close>

definition default_plugin :: "plugin_ops \<Rightarrow> string \<Rightarrow> plugin" where
  "default_plugin P name =
     (if name = ''globals'' then SimStateGlobals [] else default_plugins P name)"

definition get_plugin :: "plugin_ops \<Rightarrow> string \<Rightarrow> sim_state \<Rightarrow> plugin \<times> sim_state" where
  "get_plugin P name s =
     (case map_of (plugins s) name of
        None \<Rightarrow> (let p = default_plugin P name in (p, register_plugin name p s))
      | Some p \<Rightarrow> (p, s))"

text \<open>\<open>state.name.method(...)\<close>: the plugin is fetched, then mutated in place.\<close>

definition update_plugin ::
  "plugin_ops \<Rightarrow> string \<Rightarrow> (plugin \<Rightarrow> plugin) \<Rightarrow> sim_state \<Rightarrow> sim_state" where
  "update_plugin P name f s =
     (case get_plugin P name s of
        (p, s') \<Rightarrow> s'\<lparr>plugins := setitem (plugins s') name (f p)\<rparr>)"

definition inspect :: "solver_env \<Rightarrow> string \<Rightarrow> bp_when \<Rightarrow> bp_arg \<Rightarrow> sim_state \<Rightarrow> sim_state" where
  "inspect E event when' arg s =
     (if has_plugin s ''inspector''
      then s\<lparr>plugins := bp_action E event when' arg (plugins s)\<rparr>
      else s)"

definition inspect_getattr_added_constraints :: "sim_state \<Rightarrow> ast list \<Rightarrow> ast list" where
  "inspect_getattr_added_constraints s default_value =
     (case map_of (plugins s) ''inspector'' of
        Some (SimInspector (Some cs)) \<Rightarrow> cs
      | _ \<Rightarrow> default_value)"

subsection \<open>The constructor\<close>

text \<open>
  \<open>SimState.__init__\<close> with the options already resolved (\<open>copy\<close> passes them):
  the given plugins are registered in order, a memory and a register plugin are
  created when missing, the satisfiability flag starts \<open>True\<close> and no global
  condition is active.
\<close>

definition SimState ::
  "arch_info \<Rightarrow> (string, plugin) dict \<Rightarrow> sim_option set \<Rightarrow> string option \<Rightarrow> string option
   \<Rightarrow> sim_state" where
  "SimState a plugs opts m os =
     (let s0 = \<lparr>arch = a, options = opts, mode = m, os_name = os, plugins = [],
                satisfiable_flag = True, global_condition = None, ip_constraints = []\<rparr>;
          s1 = fold (\<lambda>(n, p). register_plugin n p) plugs s0;
          s2 = (if \<not> has_plugin s1 ''memory'' then
                  (if ABSTRACT_MEMORY \<in> opts
                     then register_plugin ''memory'' (OtherPlugin ''SimAbstractMemory'' ''mem'') s1
                   else if FAST_MEMORY \<in> opts
                     then register_plugin ''memory'' (OtherPlugin ''SimFastMemory'' ''mem'') s1
                   else register_plugin ''memory'' (OtherPlugin ''SimSymbolicMemory'' ''mem'') s1)
                else s1);
          s3 = (if \<not> has_plugin s2 ''registers'' then
                  (if FAST_REGISTERS \<in> opts
                     then register_plugin ''registers'' (OtherPlugin ''SimFastMemory'' ''reg'') s2
                   else register_plugin ''registers'' (OtherPlugin ''SimSymbolicMemory'' ''reg'') s2)
                else s2)
      in s3)"

subsection \<open>Constraints\<close>

text \<open>
  \<open>state.se\<close> is \<open>get_plugin('solver_engine')\<close>: an access registers the default
  solver plugin when the state has none.
\<close>

definition se :: "plugin_ops \<Rightarrow> sim_state \<Rightarrow> sim_state" where
  "se P s = snd (get_plugin P ''solver_engine'' s)"

fun add_constraint_actions :: "plugin_ops \<Rightarrow> solver_env \<Rightarrow> ast list \<Rightarrow> sim_state \<Rightarrow> sim_state" where
  "add_constraint_actions P E [] s = s"
| "add_constraint_actions P E (c # added) s =
     add_constraint_actions P E added
       (update_plugin P ''history'' (\<lambda>h. history_add_action E h (SimActionConstraint c)) s)"

fun add_symbolic_actions :: "plugin_ops \<Rightarrow> solver_env \<Rightarrow> ast list \<Rightarrow> sim_state \<Rightarrow> sim_state" where
  "add_symbolic_actions P E [] s = s"
| "add_symbolic_actions P E (arg # args) s =
     add_symbolic_actions P E args
       (if symbolic E arg
        then update_plugin P ''history'' (\<lambda>h. history_add_action E h (SimActionConstraint arg)) (se P s)
        else se P s)"

definition track_constraints :: "plugin_ops \<Rightarrow> solver_env \<Rightarrow> ast list \<Rightarrow> sim_state \<Rightarrow> sim_state" where
  "track_constraints P E args s =
     (let (constraints, s1) =
            (if SIMPLIFY_CONSTRAINTS \<in> options s then (map (simplify E) args, se P s) else (args, s));
          s2 = inspect E ''constraints'' BP_BEFORE (AddedConstraints constraints) s1;
          constraints' = inspect_getattr_added_constraints s2 constraints;
          (solver, s3) = get_plugin P ''solver_engine'' s2;
          (solver', added) = se_add E solver constraints';
          s4 = s3\<lparr>plugins := setitem (plugins s3) ''solver_engine'' solver'\<rparr>;
          s5 = inspect E ''constraints'' BP_AFTER NoArg s4
      in if TRACK_CONSTRAINT_ACTIONS \<in> options s5 then add_constraint_actions P E added s5 else s5)"

fun apply_converted ::
  "plugin_ops \<Rightarrow> solver_env \<Rightarrow> (ast \<times> ast) list \<Rightarrow> sim_state \<Rightarrow> sim_state" where
  "apply_converted P E [] s = s"
| "apply_converted P E ((original_expr, constrained_si) # converted) s =
     (if \<not> has_variables E original_expr then apply_converted P E converted s
      else apply_converted P E converted
             (update_plugin P ''memory'' (\<lambda>m. regions_replace_all E m original_expr constrained_si)
               (update_plugin P ''registers'' (\<lambda>r. replace_all E r original_expr constrained_si) s)))"

text \<open>
  The loop of the abstract-solver mode: the first argument found false clears the flag
  and returns; a true argument is skipped; any other is applied to registers and memory.
\<close>

fun abstract_constraints :: "plugin_ops \<Rightarrow> solver_env \<Rightarrow> ast list \<Rightarrow> sim_state \<Rightarrow> sim_state" where
  "abstract_constraints P E [] s = s"
| "abstract_constraints P E (arg # args) s =
     (if is_false E arg then (se P s)\<lparr>satisfiable_flag := False\<rparr>
      else if is_true E arg then abstract_constraints P E args (se P s)
      else if vsa_is_false E arg then (se P s)\<lparr>satisfiable_flag := False\<rparr>
      else if vsa_is_true E arg then abstract_constraints P E args (se P s)
      else abstract_constraints P E args (apply_converted P E (constraint_to_si E arg) (se P s)))"

fun nonsymbolic_constraints :: "plugin_ops \<Rightarrow> solver_env \<Rightarrow> ast list \<Rightarrow> sim_state \<Rightarrow> sim_state" where
  "nonsymbolic_constraints P E [] s = s"
| "nonsymbolic_constraints P E (arg # args) s =
     (if is_false E arg then (se P s)\<lparr>satisfiable_flag := False\<rparr>
      else nonsymbolic_constraints P E args (se P s))"

text \<open>
  \<open>add_constraints(*args, action=...)\<close>. The arguments are expressions, so the guard
  against a list or tuple as first argument never fires. \<open>record_constraints\<close> is
  the first \<open>if\<close> of the method (the constraint store and the actions), the rest of
  \<open>add_constraints\<close> the second (the two approximate modes).
\<close>

definition record_constraints ::
  "plugin_ops \<Rightarrow> solver_env \<Rightarrow> ast list \<Rightarrow> bool \<Rightarrow> sim_state \<Rightarrow> sim_state" where
  "record_constraints P E args action s =
     (if TRACK_CONSTRAINTS \<in> options s \<and> length args > 0
      then track_constraints P E args s
      else if action \<and> TRACK_CONSTRAINT_ACTIONS \<in> options s \<and> length args > 0
      then add_symbolic_actions P E args s
      else s)"

definition add_constraints ::
  "plugin_ops \<Rightarrow> solver_env \<Rightarrow> ast list \<Rightarrow> bool \<Rightarrow> sim_state \<Rightarrow> sim_state" where
  "add_constraints P E args action s =
     (let s1 = record_constraints P E args action s
      in if ABSTRACT_SOLVER \<in> options s1 \<and> length args > 0
           then abstract_constraints P E args s1
         else if SYMBOLIC \<notin> options s1 \<and> length args > 0
           then nonsymbolic_constraints P E args s1
         else s1)"

text \<open>
  \<open>satisfiable(extra_constraints=...)\<close>: the value returned and the state (an access
  to \<open>state.se\<close> may have registered the solver plugin).
\<close>

fun approx_satisfiable :: "solver_env \<Rightarrow> bool \<Rightarrow> ast list \<Rightarrow> bool" where
  "approx_satisfiable E flag [] = flag"
| "approx_satisfiable E flag (e # extra_constraints) =
     (if is_false E e then False else approx_satisfiable E flag extra_constraints)"

definition satisfiable ::
  "plugin_ops \<Rightarrow> solver_env \<Rightarrow> ast list \<Rightarrow> sim_state \<Rightarrow> bool \<times> sim_state" where
  "satisfiable P E extra_constraints s =
     (if ABSTRACT_SOLVER \<in> options s \<or> SYMBOLIC \<notin> options s then
        (approx_satisfiable E (satisfiable_flag s) extra_constraints,
         if extra_constraints = [] then s else se P s)
      else (case get_plugin P ''solver_engine'' s of
              (solver, s') \<Rightarrow> (se_satisfiable E solver extra_constraints, s')))"

definition set_mode :: "string \<Rightarrow> sim_option set \<Rightarrow> sim_state \<Rightarrow> sim_state" where
  "set_mode m mode_options s = s\<lparr>mode := Some m, options := mode_options\<rparr>"

subsection \<open>Copy, merge, widen\<close>

definition plugin_copy :: "plugin_ops \<Rightarrow> plugin \<Rightarrow> plugin" where
  "plugin_copy P p = (case p of SimStateGlobals b \<Rightarrow> SimStateGlobals b | _ \<Rightarrow> copy_plugin P p)"

definition copy :: "plugin_ops \<Rightarrow> sim_state \<Rightarrow> py_error + sim_state" where
  "copy P s =
     (if global_condition s \<noteq> None
      then Inl (SimStateError ''global condition was not cleared before state.copy().'')
      else
        (let c_plugins = map (\<lambda>(n, p). (n, plugin_copy P p)) (plugins s);
             state = SimState (arch s) c_plugins (options s) (mode s) (os_name s)
         in Inr (state\<lparr>ip_constraints := ip_constraints s\<rparr>)))"

text \<open>A list comprehension whose elements may raise: the first error wins.\<close>

fun collect :: "('e + 'a) list \<Rightarrow> 'e + 'a list" where
  "collect [] = Inr []"
| "collect (x # xs) =
     (case x of
        Inl e \<Rightarrow> Inl e
      | Inr v \<Rightarrow> (case collect xs of Inl e \<Rightarrow> Inl e | Inr vs \<Rightarrow> Inr (v # vs)))"

definition globals_backer :: "plugin \<Rightarrow> py_error + (string, int) dict" where
  "globals_backer p =
     (case p of SimStateGlobals b \<Rightarrow> Inr b | _ \<Rightarrow> Inl (AttributeError ''keys''))"

text \<open>
  \<open>plugin.merge(...)\<close> and \<open>plugin.widen(...)\<close> dispatch on the receiver's class:
  the globals plugin runs the code of this repository, any other the parameter.
\<close>

definition plugin_merge ::
  "plugin_ops \<Rightarrow> string \<Rightarrow> plugin \<Rightarrow> plugin list \<Rightarrow> ast list \<Rightarrow> plugin option
   \<Rightarrow> py_error + (plugin \<times> bool)" where
  "plugin_merge P name p others merge_conditions common_ancestor =
     (case p of
        SimStateGlobals b \<Rightarrow>
          (case collect (map globals_backer others) of
             Inl e \<Rightarrow> Inl e
           | Inr bs \<Rightarrow>
               (case globals_merge b bs merge_conditions common_ancestor of
                  Inl e \<Rightarrow> Inl e
                | Inr (b', r) \<Rightarrow> Inr (SimStateGlobals b', r)))
      | _ \<Rightarrow> merge_plugin P name p others merge_conditions common_ancestor)"

definition plugin_widen ::
  "plugin_ops \<Rightarrow> string \<Rightarrow> plugin \<Rightarrow> plugin list \<Rightarrow> py_error + (plugin \<times> bool)" where
  "plugin_widen P name p others =
     (case p of
        SimStateGlobals b \<Rightarrow> Inr (SimStateGlobals b, False)
      | _ \<Rightarrow> widen_plugin P name p others)"

definition plugin_new :: "plugin_ops \<Rightarrow> string \<Rightarrow> plugin" where
  "plugin_new P cls = (if cls = ''SimStateGlobals'' then SimStateGlobals [] else new_plugin P cls)"

text \<open>\<open>"state_merge_%d" % n\<close>: the decimal digits of the counter's value.\<close>

function string_of_nat :: "nat \<Rightarrow> string" where
  "string_of_nat n =
     (if n < 10 then [''0123456789'' ! n]
      else string_of_nat (n div 10) @ [''0123456789'' ! (n mod 10)])"
  by pat_completeness auto
termination
  by (relation "measure id") auto

declare string_of_nat.simps [simp del]

text \<open>
  The branch conditions of a merge and the new value of the module's counter
  \<open>merge_counter\<close>. Without explicit conditions (or under the option
  \<open>IGNORE_MERGE_CONDITIONS\<close>) a 16-bit symbolic variable named after the counter is
  compared with each of \<open>range(len(others)+1)\<close>.
\<close>

definition make_merge_conditions ::
  "sim_state \<Rightarrow> sim_state list \<Rightarrow> ast list list option \<Rightarrow> nat \<Rightarrow> ast list \<times> nat" where
  "make_merge_conditions self others merge_conditions merge_counter =
     (if merge_conditions = None \<or> IGNORE_MERGE_CONDITIONS \<in> options self then
        (let merge_flag = BVS (''state_merge_'' @ string_of_nat merge_counter) 16;
             merge_values = [0 ..< length others + 1]
         in (map (\<lambda>b. OpEq merge_flag (IntV (int b))) merge_values, Suc merge_counter))
      else
        (map (\<lambda>mc. if length mc = 0 then BoolV True else OpAnd mc)
             (case merge_conditions of Some mcs \<Rightarrow> mcs | None \<Rightarrow> []),
         merge_counter))"

text \<open>
  The loop over the plugin names of a merge. \<open>present\<close> drops the \<open>None\<close> entries,
  as subtracting \<open>NoneType\<close> from the set of classes does.
\<close>

fun present :: "'a option list \<Rightarrow> 'a list" where
  "present [] = []"
| "present (None # xs) = present xs"
| "present (Some x # xs) = x # present xs"

fun merge_plugins ::
  "plugin_ops \<Rightarrow> string list \<Rightarrow> sim_state list \<Rightarrow> ast list \<Rightarrow> sim_state option
   \<Rightarrow> sim_state \<Rightarrow> bool \<Rightarrow> py_error + (sim_state \<times> bool)" where
  "merge_plugins P [] others merge_conditions common_ancestor merged merging_occurred =
     Inr (merged, merging_occurred)"
| "merge_plugins P (p # ps) others merge_conditions common_ancestor merged merging_occurred =
     (let our_plugin = map_of (plugins merged) p;
          their_plugins = map (\<lambda>pl. map_of (plugins pl) p) others;
          plugin_classes = remdups (map plugin_class (present (our_plugin # their_plugins)))
      in case plugin_classes of
           [cls] \<Rightarrow>
             (let our_filled_plugin = (case our_plugin of Some q \<Rightarrow> q | None \<Rightarrow> plugin_new P cls);
                  merged1 = (case our_plugin of Some q \<Rightarrow> merged
                             | None \<Rightarrow> register_plugin p our_filled_plugin merged);
                  their_filled_plugins =
                    map (\<lambda>tp. case tp of Some q \<Rightarrow> q | None \<Rightarrow> plugin_new P cls) their_plugins;
                  ancestor_plugin =
                    (case common_ancestor of Some a \<Rightarrow> map_of (plugins a) p | None \<Rightarrow> None)
              in case plugin_merge P p our_filled_plugin their_filled_plugins merge_conditions
                        ancestor_plugin of
                   Inl e \<Rightarrow> Inl e
                 | Inr (q, plugin_state_merged) \<Rightarrow>
                     merge_plugins P ps others merge_conditions common_ancestor
                       (merged1\<lparr>plugins := setitem (plugins merged1) p q\<rparr>)
                       (merging_occurred \<or> plugin_state_merged))
         | _ \<Rightarrow> Inl (SimMergeError ''There are differing plugin classes''))"

text \<open>
  \<open>merge(*others, merge_conditions, common_ancestor, plugin_whitelist, **kwargs)\<close>
  returns the merged state, the branch conditions and the merging flag, or raises; the
  second component is the counter afterwards. The set of plugin names is iterated in
  the order of first occurrence. The debugger breakpoint before the architecture error
  is taken to continue. Default plugins registered into the receiver and the other
  states on the way stay with the caller's objects and are not returned.
\<close>

definition merge ::
  "plugin_ops \<Rightarrow> solver_env \<Rightarrow> sim_state \<Rightarrow> sim_state list \<Rightarrow> ast list list option
   \<Rightarrow> sim_state option \<Rightarrow> string list option \<Rightarrow> string list \<Rightarrow> nat
   \<Rightarrow> (py_error + (sim_state \<times> ast list \<times> bool)) \<times> nat" where
  "merge P E self others merge_conditions common_ancestor plugin_whitelist kwargs merge_counter =
     (if length kwargs \<noteq> 0 then (Inl (ValueError ''invalid arguments''), merge_counter)
      else
        (let self1 = (if merge_conditions = None \<or> IGNORE_MERGE_CONDITIONS \<in> options self
                         \<or> merge_conditions \<noteq> Some []
                      then se P self else self);
             (conditions, counter') =
                make_merge_conditions self others merge_conditions merge_counter
         in if length (remdups (map (\<lambda>st. arch_name (arch st)) others)) \<noteq> 1
            then (Inl (SimMergeError ''Unable to merge due to different architectures.''), counter')
            else
              (let all_plugins =
                     remdups (keys (plugins self1) @ concat (map (\<lambda>st. keys (plugins st)) others));
                   all_plugins' = (case plugin_whitelist of
                                     None \<Rightarrow> all_plugins
                                   | Some wl \<Rightarrow> filter (\<lambda>p. p \<in> set wl) all_plugins)
               in case copy P self1 of
                    Inl e \<Rightarrow> (Inl e, counter')
                  | Inr merged \<Rightarrow>
                      (let merged1 = update_plugin P ''history''
                             (\<lambda>h. history_set_parent E h (fst (get_plugin P ''history'' self1)))
                             merged
                       in case merge_plugins P all_plugins' others conditions common_ancestor
                                 merged1 False of
                            Inl e \<Rightarrow> (Inl e, counter')
                          | Inr (merged2, merging_occurred) \<Rightarrow>
                              (Inr (add_constraints P E [OpOr conditions] False (se P merged2),
                                    conditions, merging_occurred),
                               counter')))))"

text \<open>
  The receiver after a call of \<open>merge\<close>, returning or raising: the access to
  \<open>self.se\<close> for the branch conditions has registered the default solver plugin when
  the receiver had none, and \<open>self.history\<close>, read after the copy was made, the
  default history plugin; nothing else of the receiver is assigned (the receiver is
  taken not to be one of the other states, in which the loop over the plugins may
  register plugins). \<open>copy\<close> and \<open>widen\<close> assign nothing of their receiver.
\<close>

definition merge_receiver ::
  "plugin_ops \<Rightarrow> sim_state \<Rightarrow> sim_state list \<Rightarrow> ast list list option \<Rightarrow> string list
   \<Rightarrow> sim_state" where
  "merge_receiver P self others merge_conditions kwargs =
     (if length kwargs \<noteq> 0 then self
      else
        (let self1 = (if merge_conditions = None \<or> IGNORE_MERGE_CONDITIONS \<in> options self
                         \<or> merge_conditions \<noteq> Some []
                      then se P self else self)
         in if length (remdups (map (\<lambda>st. arch_name (arch st)) others)) \<noteq> 1 then self1
            else (case copy P self1 of
                    Inl e \<Rightarrow> self1
                  | Inr merged \<Rightarrow> snd (get_plugin P ''history'' self1))))"

text \<open>The loop of \<open>widen\<close> over the receiver's plugin names.\<close>

fun widen_plugins ::
  "plugin_ops \<Rightarrow> string list \<Rightarrow> sim_state list \<Rightarrow> sim_state \<Rightarrow> bool
   \<Rightarrow> py_error + (sim_state \<times> bool)" where
  "widen_plugins P [] others widened widening_occurred = Inr (widened, widening_occurred)"
| "widen_plugins P (p # ps) others widened widening_occurred =
     (if p \<in> {''solver_engine'', ''unicorn''}
      then widen_plugins P ps others widened widening_occurred
      else
        (case getitem (plugins widened) p of
           Inl e \<Rightarrow> Inl e
         | Inr wp \<Rightarrow>
             (case collect (map (\<lambda>st. getitem (plugins st) p) others) of
                Inl e \<Rightarrow> Inl e
              | Inr their \<Rightarrow>
                  (case plugin_widen P p wp their of
                     Inl e \<Rightarrow> Inl e
                   | Inr (wp', plugin_state_widened) \<Rightarrow>
                       widen_plugins P ps others
                         (widened\<lparr>plugins := setitem (plugins widened) p wp'\<rparr>)
                         (widening_occurred \<or> plugin_state_widened)))))"

definition widen ::
  "plugin_ops \<Rightarrow> sim_state \<Rightarrow> sim_state list \<Rightarrow> py_error + (sim_state \<times> bool)" where
  "widen P self others =
     (if length (remdups (map (\<lambda>st. set (keys (plugins st))) others)) \<noteq> 1
      then Inl (SimMergeError ''Unable to widen due to different sets of plugins.'')
      else if length (remdups (map (\<lambda>st. arch_name (arch st)) others)) \<noteq> 1
      then Inl (SimMergeError ''Unable to widen due to different architectures.'')
      else
        (case copy P self of
           Inl e \<Rightarrow> Inl e
         | Inr widened \<Rightarrow> widen_plugins P (keys (plugins self)) others widened False))"

subsection \<open>The scoped global condition\<close>

text \<open>
  \<open>with state.with_condition(c): body\<close>. The context manager saves the condition,
  installs \<open>c\<close> or its conjunction with the saved one, runs the body, and restores the
  saved condition in its \<open>finally\<close> clause; the body returns a value or raises
  (\<open>Inl\<close>), having mutated the state either way.
\<close>

definition with_condition ::
  "plugin_ops \<Rightarrow> ast \<Rightarrow> (sim_state \<Rightarrow> (py_error + 'a) \<times> sim_state) \<Rightarrow> sim_state
   \<Rightarrow> (py_error + 'a) \<times> sim_state" where
  "with_condition P c body s =
     (let old_condition = global_condition s;
          (new_condition, s1) = (case old_condition of
                                   None \<Rightarrow> (c, s)
                                 | Some oc \<Rightarrow> (OpAnd [oc, c], se P s));
          s2 = s1\<lparr>global_condition := Some new_condition\<rparr>;
          (r, s3) = body s2
      in (r, s3\<lparr>global_condition := old_condition\<rparr>))"

subsection \<open>Sequences of operations on one state\<close>

text \<open>
  The methods of \<open>SimState\<close> as a program run on one state object: adding
  constraints, asking for satisfiability, fetching, registering and releasing plugins,
  changing the mode, a scope of \<open>with_condition\<close> around a nested program, and
  being the receiver of \<open>copy\<close>, \<open>merge\<close> and \<open>widen\<close>, whose results are other
  objects. A call that raises leaves the object as it is at that point, and the
  program goes on.
\<close>

datatype state_op =
    AddConstraints "ast list" bool
  | Satisfiable "ast list"
  | GetPlugin string
  | RegisterPlugin string plugin
  | ReleasePlugin string
  | SetMode string "sim_option set"
  | WithCondition ast "state_op list"
  | Copy
  | Merge "sim_state list" "ast list list option" "string list"
  | Widen "sim_state list"

fun run_op :: "plugin_ops \<Rightarrow> solver_env \<Rightarrow> state_op \<Rightarrow> sim_state \<Rightarrow> sim_state"
  and run_ops :: "plugin_ops \<Rightarrow> solver_env \<Rightarrow> state_op list \<Rightarrow> sim_state \<Rightarrow> sim_state" where
  "run_op P E (AddConstraints args action) s = add_constraints P E args action s"
| "run_op P E (Satisfiable extra_constraints) s = snd (satisfiable P E extra_constraints s)"
| "run_op P E (GetPlugin name) s = snd (get_plugin P name s)"
| "run_op P E (RegisterPlugin name p) s = register_plugin name p s"
| "run_op P E (ReleasePlugin name) s = release_plugin name s"
| "run_op P E (SetMode m mode_options) s = set_mode m mode_options s"
| "run_op P E (WithCondition c body) s =
     snd (with_condition P c (\<lambda>s'. (Inr (), run_ops P E body s')) s)"
| "run_op P E Copy s = s"
| "run_op P E (Merge others merge_conditions kwargs) s =
     merge_receiver P s others merge_conditions kwargs"
| "run_op P E (Widen others) s = s"
| "run_ops P E [] s = s"
| "run_ops P E (x # xs) s = run_ops P E xs (run_op P E x s)"

subsection \<open>An instance of the collaborators\<close>

text \<open>
  A simple instance of the external parts, on which the model runs on concrete
  inputs: plugins copy to themselves and merge and widen without change, the solver
  plugin appends what is added, and only the literal \<open>false\<close> is decidably false.
\<close>

definition example_ops :: plugin_ops where
  "example_ops =
     \<lparr>copy_plugin = (\<lambda>p. p),
      merge_plugin = (\<lambda>name p others conds anc. Inr (p, False)),
      widen_plugin = (\<lambda>name p others. Inr (p, False)),
      default_plugins = (\<lambda>name. if name = ''solver_engine'' then SimSolver []
                                else OtherPlugin name []),
      new_plugin = (\<lambda>cls. OtherPlugin cls [])\<rparr>"

definition example_env :: solver_env where
  "example_env =
     \<lparr>simplify = (\<lambda>e. e),
      is_false = (\<lambda>e. e = BoolV False),
      is_true = (\<lambda>e. e = BoolV True),
      vsa_is_false = (\<lambda>e. e = BoolV False),
      vsa_is_true = (\<lambda>e. e = BoolV True),
      symbolic = (\<lambda>e. case e of BoolV b \<Rightarrow> False | IntV i \<Rightarrow> False | _ \<Rightarrow> True),
      se_add = (\<lambda>p cs. case p of SimSolver store \<Rightarrow> (SimSolver (store @ cs), cs)
                                 | _ \<Rightarrow> (p, cs)),
      se_satisfiable = (\<lambda>p extra. True),
      constraint_to_si = (\<lambda>e. []),
      has_variables = (\<lambda>e. False),
      replace_all = (\<lambda>p a b. p),
      regions_replace_all = (\<lambda>p a b. p),
      history_add_action = (\<lambda>h a. h),
      history_set_parent = (\<lambda>h parent. h),
      bp_action = (\<lambda>event when' arg d. d)\<rparr>"

definition example_state :: "string \<Rightarrow> sim_option set \<Rightarrow> sim_state" where
  "example_state name opts =
     \<lparr>arch = \<lparr>arch_name = name, arch_arm = False\<rparr>, options = opts, mode = None,
      os_name = None,
      plugins = [(''memory'', OtherPlugin ''SimSymbolicMemory'' ''mem''),
                 (''registers'', OtherPlugin ''SimSymbolicMemory'' ''reg''),
                 (''solver_engine'', SimSolver [])],
      satisfiable_flag = True, global_condition = None, ip_constraints = []\<rparr>"

section \<open>The VEX engine (engines/vex/engine.py)\<close>

subsection \<open>Errors, collaborators, the engine object\<close>

datatype engine_error =
    PyError py_error
  | SimEngineError string
  | SimIRSBError string
  | SimSegfaultError int string
  | SimTranslationError string
  | SimReliftException
  | UnsupportedDirtyError
  | SimSolverError
  | SimMemoryAddressError
  | SimError string

definition VEX_IRSB_MAX_SIZE :: int where
  "VEX_IRSB_MAX_SIZE = 400"

definition VEX_IRSB_MAX_INST :: int where
  "VEX_IRSB_MAX_INST = 99"

type_synonym bytes = "nat list"

record clemory =
  cl_arch :: arch_info
  cl_content :: "(int, nat) dict"

text \<open>
  The page permissions of an address, as the engine distinguishes them: the lookup
  raises, the value is symbolic, or it is a concrete integer.
\<close>

datatype perms = PermError | PermSymbolic | PermConcrete int

text \<open>The translated statement and expression objects, by the attributes read.\<close>

record s_stmt =
  s_guard :: ast
  s_target :: ast
  s_jumpkind :: string
  s_actions :: "action list"

record s_expr =
  e_expr :: ast
  e_actions :: "action list"

datatype exit_idx = StmtIdx nat | DefaultExit

text \<open>
  The collector of successors is outside this repository's sources. The model keeps
  the attributes the engine assigns itself and hands every call of \<open>add_successor\<close>
  to a parameter; \<open>added\<close> is there for an instance of it to keep the successors
  it was given.
\<close>

record successors =
  succ_addr :: int
  sort :: string
  description :: string
  processed :: bool
  artifact_irsb :: "irsb option"
  artifact_insn_addrs :: "int list"
  unsat_successors :: "sim_state list"
  flat_successors :: "sim_state list"
  added :: "(sim_state \<times> ast \<times> ast \<times> string \<times> exit_idx \<times> int) list"

text \<open>
  The lifter \<open>pyvex.IRSB(buff, addr, arch, num_bytes, num_inst, bytes_offset,
  traceflags, opt_level)\<close> (\<open>None\<close> stands for \<open>PyVEXError\<close>), the memory image and
  the state memory, the translation of statements and expressions, and the methods of
  the history plugin and of the successors. A translation returns its outcome together
  with the state as it has mutated it, also when it raises.
\<close>

record vex_env =
  pyvex_IRSB :: "bytes \<Rightarrow> int \<Rightarrow> arch_info \<Rightarrow> int \<Rightarrow> int option \<Rightarrow> int \<Rightarrow> int \<Rightarrow> int
                 \<Rightarrow> irsb option"
  read_bytes_c :: "clemory \<Rightarrow> int \<Rightarrow> (bytes \<times> int) option"
  abstract_memory_backer :: "sim_state \<Rightarrow> clemory"
  symbolic_memory_backer :: "sim_state \<Rightarrow> clemory"
  permissions :: "sim_state \<Rightarrow> int \<Rightarrow> perms"
  any_int_ip :: "sim_state \<Rightarrow> int"
  mem_contains :: "sim_state \<Rightarrow> int \<Rightarrow> bool"
  mem_load_str :: "sim_state \<Rightarrow> int \<Rightarrow> int \<Rightarrow> bytes"
  mem_load_byte :: "sim_state \<Rightarrow> int \<Rightarrow> nat"
  translate_stmt :: "stmt \<Rightarrow> sim_state \<Rightarrow> (engine_error + s_stmt option) \<times> sim_state"
  translate_expr :: "nat \<Rightarrow> sim_state \<Rightarrow> (engine_error + s_expr) \<times> sim_state"
  add_successor :: "successors \<Rightarrow> sim_state \<Rightarrow> ast \<Rightarrow> ast \<Rightarrow> string \<Rightarrow> exit_idx \<Rightarrow> int
                    \<Rightarrow> (engine_error + unit) \<times> successors"
  emulate_returns :: "sim_state \<Rightarrow> successors \<Rightarrow> irsb \<Rightarrow> successors"
  is_empty :: "successors \<Rightarrow> bool"
  unconstrained :: "string \<Rightarrow> nat \<Rightarrow> ast"
  tyenv_sizeof :: "nat option \<Rightarrow> int \<Rightarrow> nat"
  history_extend_actions :: "plugin \<Rightarrow> action list \<Rightarrow> plugin"
  history_append_ins_addr :: "plugin \<Rightarrow> int \<Rightarrow> plugin"
  history_set_recent_block_count :: "plugin \<Rightarrow> int \<Rightarrow> plugin"
  history_add_event :: "plugin \<Rightarrow> string \<Rightarrow> plugin"

text \<open>
  The cache key \<open>(addr, insn_bytes, size, num_inst, thumb, opt_level)\<close> and the
  engine object. \<open>block_cache\<close> is the \<open>LRUCache\<close>, least recently used entry
  first; \<open>next_id\<close> numbers the block objects made so far.
\<close>

type_synonym cache_key = "int \<times> bytes option \<times> int \<times> int option \<times> int \<times> int"

record engine =
  stop_points :: "int set option"
  use_cache :: bool
  default_opt_level :: int
  support_selfmodifying_code :: bool
  single_step :: bool
  cache_size :: nat
  block_cache :: "(cache_key, irsb) dict"
  cache_hit_count :: nat
  cache_miss_count :: nat
  next_id :: nat

subsection \<open>The bounded cache\<close>

text \<open>
  Modelled from the spec: the block cache is bounded with least-recently-used
  eviction (\<open>cachetools.LRUCache\<close>, not part of the sources). Reading a key makes it
  the most recent; storing a value under a new key first evicts least recently used
  entries until there is room, and fails when the capacity is below one entry; storing
  under a present key replaces the value and makes the key the most recent.
\<close>

definition lru_get :: "('k, 'v) dict \<Rightarrow> 'k \<Rightarrow> py_error + ('v \<times> ('k, 'v) dict)" where
  "lru_get c k =
     (case map_of c k of
        None \<Rightarrow> Inl KeyError
      | Some v \<Rightarrow> Inr (v, AList.delete k c @ [(k, v)]))"

definition lru_set :: "nat \<Rightarrow> ('k, 'v) dict \<Rightarrow> 'k \<Rightarrow> 'v \<Rightarrow> py_error + ('k, 'v) dict" where
  "lru_set maxsize c k v =
     (if maxsize < 1 then Inl (ValueError ''value too large'')
      else if contains c k then Inr (AList.delete k c @ [(k, v)])
      else Inr (drop (length c + 1 - maxsize) c @ [(k, v)]))"

subsection \<open>Lifting\<close>

text \<open>\<open>_first_stoppoint\<close>: the first instruction mark after the first at a stop point.\<close>

fun first_stoppoint_loop :: "int set \<Rightarrow> bool \<Rightarrow> stmt list \<Rightarrow> int option" where
  "first_stoppoint_loop sp first_imark [] = None"
| "first_stoppoint_loop sp first_imark (IMark a l d # ss) =
     (if \<not> first_imark \<and> a + d \<in> sp then Some (a + d)
      else first_stoppoint_loop sp False ss)"
| "first_stoppoint_loop sp first_imark (s # ss) = first_stoppoint_loop sp first_imark ss"

definition first_stoppoint :: "engine \<Rightarrow> irsb \<Rightarrow> int option" where
  "first_stoppoint eng b =
     (case stop_points eng of
        None \<Rightarrow> None
      | Some sp \<Rightarrow> first_stoppoint_loop sp True (statements b))"

text \<open>
  \<open>_load_bytes(addr, max_size, state, clemory)\<close>. Bit 1 of a concrete permission
  value is \<open>p & 2 != 0\<close>.
\<close>

definition load_bytes ::
  "vex_env \<Rightarrow> engine \<Rightarrow> int \<Rightarrow> int \<Rightarrow> sim_state option \<Rightarrow> clemory option
   \<Rightarrow> engine_error + (bytes \<times> int)" where
  "load_bytes V eng addr max_size state clem =
     (if clem = None \<and> state = None
      then Inl (SimEngineError ''state and clemory cannot both be None in _load_bytes().'')
      else
        (let cl = (case clem of
                     Some c \<Rightarrow> c
                   | None \<Rightarrow> (case state of
                                Some st \<Rightarrow> (if ABSTRACT_MEMORY \<in> options st
                                            then abstract_memory_backer V st
                                            else symbolic_memory_backer V st)
                              | None \<Rightarrow> \<lparr>cl_arch = \<lparr>arch_name = [], arch_arm = False\<rparr>,
                                          cl_content = []\<rparr>));
             smc = (case state of
                      None \<Rightarrow> support_selfmodifying_code eng
                    | Some st \<Rightarrow> (case permissions V st addr of
                                   PermConcrete p \<Rightarrow> bit p 1
                                 | _ \<Rightarrow> True));
             (buff, sz) = (if \<not> smc \<or> state = None
                             then (case read_bytes_c V cl addr of
                                     Some r \<Rightarrow> r
                                   | None \<Rightarrow> ([], 0))
                             else ([], 0));
             (buff', size') =
                (case state of
                   None \<Rightarrow> (buff, sz)
                 | Some st \<Rightarrow>
                     (if sz = 0 then
                        (if mem_contains V st addr \<and> mem_contains V st (addr + max_size - 1)
                         then (mem_load_str V st addr max_size, max_size)
                         else
                           (let good_addrs = takeWhile (mem_contains V st)
                                               (map (\<lambda>i. addr + int i) [0 ..< nat max_size]);
                                b = map (mem_load_byte V st) good_addrs
                            in (b, int (length b))))
                      else (buff, sz)))
         in Inr (buff', min max_size size')))"

text \<open>
  The arguments of \<open>lift\<close>. A state, a memory image and an architecture object are
  true values when given; a byte string is true when given and not empty.
\<close>

record lift_args =
  a_state :: "sim_state option"
  a_clemory :: "clemory option"
  a_insn_bytes :: "bytes option"
  a_arch :: "arch_info option"
  a_addr :: "int option"
  a_size :: "int option"
  a_num_inst :: "int option"
  a_traceflags :: int
  a_thumb :: bool
  a_opt_level :: "int option"

definition starts_with :: "string \<Rightarrow> string \<Rightarrow> bool" where
  "starts_with s pre = (take (length pre) s = pre)"

text \<open>
  Phase 0 of \<open>lift\<close>: the sanity checks, the architecture, and the switch-off of
  single-stepping on MIPS.
\<close>

definition lift_phase0 :: "engine \<Rightarrow> lift_args \<Rightarrow> engine_error + (arch_info \<times> engine)" where
  "lift_phase0 eng a =
     (if a_state a = None \<and> a_clemory a = None
         \<and> (a_insn_bytes a = None \<or> a_insn_bytes a = Some [])
      then Inl (PyError (ValueError ''Must provide state or clemory or insn_bytes!''))
      else if a_state a = None \<and> a_clemory a = None \<and> a_arch a = None
      then Inl (PyError (ValueError ''Must provide state or clemory or arch!''))
      else if a_addr a = None \<and> a_state a = None
      then Inl (PyError (ValueError ''Must provide state or addr!''))
      else
        (case (case a_arch a of
                 Some ar \<Rightarrow> Some ar
               | None \<Rightarrow> (case a_clemory a of
                            Some cl \<Rightarrow> Some (cl_arch cl)
                          | None \<Rightarrow> map_option arch (a_state a))) of
           None \<Rightarrow> Inl (PyError (AttributeError ''arch''))
         | Some ar \<Rightarrow>
             Inr (ar, if starts_with (arch_name ar) ''MIPS'' \<and> single_step eng
                      then eng\<lparr>single_step := False\<rparr> else eng)))"

text \<open>
  Phase 1, the parameter defaults: the size and the instruction count after clamping,
  and the optimisation level (with the state, from whose options \<open>OPTIMIZE_IR\<close> is
  removed when self-modifying code is supported).
\<close>

definition default_size :: "int option \<Rightarrow> int" where
  "default_size sz =
     (case sz of Some s \<Rightarrow> min s VEX_IRSB_MAX_SIZE | None \<Rightarrow> VEX_IRSB_MAX_SIZE)"

definition default_num_inst :: "engine \<Rightarrow> int option \<Rightarrow> int option" where
  "default_num_inst eng num_inst =
     (case num_inst of
        Some n \<Rightarrow> Some (min n VEX_IRSB_MAX_INST)
      | None \<Rightarrow> if single_step eng then Some 1 else None)"

definition default_opt :: "engine \<Rightarrow> sim_state option \<Rightarrow> int option \<Rightarrow> int \<times> sim_state option" where
  "default_opt eng state opt_level =
     (let ol = (case opt_level of
                  Some l \<Rightarrow> l
                | None \<Rightarrow> (case state of
                             Some st \<Rightarrow> if OPTIMIZE_IR \<in> options st then 1
                                        else default_opt_level eng
                           | None \<Rightarrow> default_opt_level eng))
      in if support_selfmodifying_code eng \<and> ol > 0
         then (0, map_option (\<lambda>st. st\<lparr>options := options st - {OPTIMIZE_IR}\<rparr>) state)
         else (ol, state))"

text \<open>
  Phase 2, the thumb normalisation: the flag as an integer and the address;
  \<open>addr &= ~1\<close> clears the lowest bit.
\<close>

definition normalize_thumb :: "arch_info \<Rightarrow> bool \<Rightarrow> int \<Rightarrow> int \<times> int" where
  "normalize_thumb ar thumb addr =
     (let t = (if thumb then 1 else 0) in
      if arch_arm ar then
        (let t' = (if addr mod 2 = 1 then 1 else t)
         in if t' \<noteq> 0 then (t', addr - addr mod 2) else (t', addr))
      else (0, addr))"

text \<open>
  Phases 4 and 5 of \<open>lift\<close>, after a cache miss: the bytes, up to two calls of the
  lifter (the second when the first block has a stop point inside), and the store
  into the cache under the key of phase 3.
\<close>

definition new_irsb :: "engine \<Rightarrow> irsb \<Rightarrow> irsb \<times> engine" where
  "new_irsb eng b = (b\<lparr>irsb_id := next_id eng\<rparr>, eng\<lparr>next_id := Suc (next_id eng)\<rparr>)"

definition cache_store :: "engine \<Rightarrow> cache_key \<Rightarrow> irsb \<Rightarrow> (engine_error + irsb) \<times> engine" where
  "cache_store eng key b =
     (if use_cache eng then
        (case lru_set (cache_size eng) (block_cache eng) key b of
           Inl e \<Rightarrow> (Inl (PyError e), eng)
         | Inr c \<Rightarrow> (Inr b, eng\<lparr>block_cache := c\<rparr>))
      else (Inr b, eng))"

definition lift_miss ::
  "vex_env \<Rightarrow> engine \<Rightarrow> lift_args \<Rightarrow> arch_info \<Rightarrow> sim_state option \<Rightarrow> cache_key \<Rightarrow> int
   \<Rightarrow> (engine_error + irsb) \<times> engine" where
  "lift_miss V eng a ar state key sz =
     (case key of (addr, insn_bytes, key_size, num_inst, thumb, opt_level) \<Rightarrow>
        (case (case insn_bytes of
                 Some b \<Rightarrow> Inr (b, int (length b))
               | None \<Rightarrow> load_bytes V eng addr sz state (a_clemory a)) of
           Inl e \<Rightarrow> (Inl e, eng)
         | Inr (buff, size1) \<Rightarrow>
             if buff = [] \<or> size1 = 0
             then (Inl (SimEngineError ''No bytes in memory for block starting at addr.''), eng)
             else
               (case pyvex_IRSB V buff (addr + thumb) ar size1 num_inst thumb (a_traceflags a)
                       opt_level of
                  None \<Rightarrow> (Inl (SimTranslationError ''Translation error''), eng)
                | Some b0 \<Rightarrow>
                    (case new_irsb eng b0 of (irsb0, eng0) \<Rightarrow>
                       (case first_stoppoint eng0 irsb0 of
                          None \<Rightarrow> cache_store eng0 key irsb0
                        | Some stop_point \<Rightarrow>
                            (case pyvex_IRSB V buff (addr + thumb) ar (stop_point - addr)
                                    num_inst thumb (a_traceflags a) opt_level of
                               None \<Rightarrow> (Inl (SimTranslationError ''Translation error''), eng0)
                             | Some b1 \<Rightarrow>
                                 (case new_irsb eng0 b1 of (irsb1, eng1) \<Rightarrow>
                                    cache_store eng1 key irsb1)))))))"

text \<open>Phase 3, the cache lookup, with the rest of \<open>lift\<close> behind it.\<close>

definition lift_cached ::
  "vex_env \<Rightarrow> engine \<Rightarrow> lift_args \<Rightarrow> arch_info \<Rightarrow> sim_state option \<Rightarrow> cache_key
   \<Rightarrow> (engine_error + irsb) \<times> engine" where
  "lift_cached V eng a ar state key =
     (case key of (addr, insn_bytes, sz, num_inst, thumb, opt_level) \<Rightarrow>
        if use_cache eng \<and> contains (block_cache eng) key then
          (case lru_get (block_cache eng) key of
             Inl e \<Rightarrow> (Inl (PyError e), eng\<lparr>cache_hit_count := cache_hit_count eng + 1\<rparr>)
           | Inr (b, c1) \<Rightarrow>
               (let eng1 = eng\<lparr>cache_hit_count := cache_hit_count eng + 1, block_cache := c1\<rparr>
                in case first_stoppoint eng1 b of
                     None \<Rightarrow> (Inr b, eng1)
                   | Some stop_point \<Rightarrow>
                       (let size' = stop_point - addr;
                            key' = (addr, insn_bytes, size', num_inst, thumb, opt_level)
                        in if contains (block_cache eng1) key' then
                             (case lru_get (block_cache eng1) key' of
                                Inl e \<Rightarrow>
                                  (Inl (PyError e),
                                   eng1\<lparr>cache_hit_count := cache_hit_count eng1 + 1\<rparr>)
                              | Inr (b', c2) \<Rightarrow>
                                  (Inr b', eng1\<lparr>cache_hit_count := cache_hit_count eng1 + 1,
                                                block_cache := c2\<rparr>))
                           else lift_miss V
                                  (eng1\<lparr>cache_miss_count := cache_miss_count eng1 + 1\<rparr>)
                                  a ar state key' size')))
        else lift_miss V (eng\<lparr>cache_miss_count := cache_miss_count eng + 1\<rparr>)
               a ar state key sz)"

text \<open>
  The cache key that phases 0 to 2 compute from the arguments, with the
  architecture, the state and the engine after these phases.
\<close>

definition lift_key ::
  "vex_env \<Rightarrow> engine \<Rightarrow> lift_args
   \<Rightarrow> engine_error + (cache_key \<times> arch_info \<times> sim_state option \<times> engine)" where
  "lift_key V eng a =
     (case lift_phase0 eng a of
        Inl e \<Rightarrow> Inl e
      | Inr (ar, eng0) \<Rightarrow>
          (case (case a_addr a of
                   Some ad \<Rightarrow> Some ad
                 | None \<Rightarrow> map_option (any_int_ip V) (a_state a)) of
             None \<Rightarrow> Inl (PyError (AttributeError ''se''))
           | Some addr0 \<Rightarrow>
               (let sz = default_size (a_size a);
                    num_inst = default_num_inst eng0 (a_num_inst a);
                    (opt_level, state) = default_opt eng0 (a_state a) (a_opt_level a);
                    (thumb, addr) = normalize_thumb ar (a_thumb a) addr0
                in Inr ((addr, a_insn_bytes a, sz, num_inst, thumb, opt_level),
                        ar, state, eng0))))"

text \<open>
  \<open>lift\<close>: the block or the error, the engine afterwards, and the state argument
  afterwards.
\<close>

definition lift ::
  "vex_env \<Rightarrow> engine \<Rightarrow> lift_args \<Rightarrow> (engine_error + irsb) \<times> engine \<times> sim_state option" where
  "lift V eng a =
     (case lift_key V eng a of
        Inl e \<Rightarrow> (Inl e, eng, a_state a)
      | Inr (key, ar, state, eng0) \<Rightarrow>
          (case lift_cached V eng0 a ar state key of
             (r, eng1) \<Rightarrow> (r, eng1, state)))"

subsection \<open>Statements\<close>

text \<open>
  Modelled from the spec: a scratch plugin starts with a true guard, no instruction
  counted and no dirty address. \<open>scratch_of\<close> reads \<open>state.scratch\<close>,
  \<open>map_scratch\<close> assigns its attributes.
\<close>

definition default_scratch :: scratch where
  "default_scratch =
     \<lparr>guard = BoolV True, ins_addr = 0, num_insns = 0, stmt_idx = 0, dirty_addrs = {},
      temps = [], sim_procedure = None, tyenv = None, irsb = None\<rparr>"

definition the_scratch :: "plugin \<Rightarrow> scratch" where
  "the_scratch p = (case p of SimStateScratch sc \<Rightarrow> sc | _ \<Rightarrow> default_scratch)"

definition scratch_of :: "plugin_ops \<Rightarrow> sim_state \<Rightarrow> scratch" where
  "scratch_of P s = the_scratch (fst (get_plugin P ''scratch'' s))"

definition map_scratch :: "plugin_ops \<Rightarrow> (scratch \<Rightarrow> scratch) \<Rightarrow> sim_state \<Rightarrow> sim_state" where
  "map_scratch P f s = update_plugin P ''scratch'' (\<lambda>p. SimStateScratch (f (the_scratch p))) s"

text \<open>
  \<open>_handle_statement\<close>, first part: an instruction mark sets the instruction
  address, raises \<open>SimReliftException\<close> when a byte of the instruction is dirty, and
  otherwise counts the instruction. The exception carries the state, which the model
  returns beside every outcome.
\<close>

definition handle_imark ::
  "vex_env \<Rightarrow> plugin_ops \<Rightarrow> solver_env \<Rightarrow> stmt \<Rightarrow> sim_state \<Rightarrow> (engine_error + unit) \<times> sim_state" where
  "handle_imark V P E stmt state =
     (case stmt of
        IMark addr len delta \<Rightarrow>
          (let ins = addr + delta;
               s1 = map_scratch P (\<lambda>sc. sc\<lparr>ins_addr := ins\<rparr>) state
           in if list_ex (\<lambda>subaddr. int subaddr + addr \<in> dirty_addrs (scratch_of P s1)) [0 ..< len]
              then (Inl SimReliftException, s1)
              else
                (let s2 = map_scratch P (\<lambda>sc. sc\<lparr>num_insns := num_insns sc + 1\<rparr>) s1;
                     s3 = inspect E ''instruction'' BP_BEFORE (Instruction ins) s2;
                     s4 = update_plugin P ''history'' (\<lambda>h. history_append_ins_addr V h ins) s3
                 in (Inr (), s4)))
      | _ \<Rightarrow> (Inr (), state))"

text \<open>
  The conditional exit: the successor is built on a copy of the state; without the
  option \<open>IGNORE_EXIT_GUARDS\<close> the negated guard is added to the constraints and to
  the scratch guard, with it only to the scratch guard.
\<close>

definition handle_exit ::
  "vex_env \<Rightarrow> plugin_ops \<Rightarrow> solver_env \<Rightarrow> s_stmt option \<Rightarrow> sim_state \<Rightarrow> successors
   \<Rightarrow> (engine_error + unit) \<times> sim_state \<times> successors" where
  "handle_exit V P E s_stmt state succs =
     (case copy P state of
        Inl e \<Rightarrow> (Inl (PyError e), state, succs)
      | Inr exit_state \<Rightarrow>
          (case s_stmt of
             None \<Rightarrow> (Inl (PyError (AttributeError ''target'')), state, succs)
           | Some ss \<Rightarrow>
               (let state1 = snd (get_plugin P ''scratch'' state);
                    sc = scratch_of P state1
                in if IGNORE_EXIT_GUARDS \<notin> options state1 then
                     (case add_successor V succs exit_state (s_target ss) (s_guard ss)
                             (s_jumpkind ss) (StmtIdx (stmt_idx sc)) (ins_addr sc) of
                        (Inl e, succs') \<Rightarrow> (Inl e, state1, succs')
                      | (Inr u, succs') \<Rightarrow>
                          (let cont_condition = OpNot (s_guard ss);
                               state2 = add_constraints P E [cont_condition] False state1;
                               state3 = map_scratch P
                                          (\<lambda>sc. sc\<lparr>guard := OpAnd [guard sc, cont_condition]\<rparr>)
                                          state2
                           in (Inr (), state3, succs')))
                   else
                     (case add_successor V succs exit_state (s_target ss) (s_guard ss)
                             (s_jumpkind ss) (StmtIdx (stmt_idx sc)) (ins_addr sc) of
                        (Inl e, succs') \<Rightarrow> (Inl e, state1, succs')
                      | (Inr u, succs') \<Rightarrow>
                          (Inr (),
                           map_scratch P
                             (\<lambda>sc. sc\<lparr>guard := OpAnd [guard sc, OpNot (s_guard ss)]\<rparr>) state1,
                           succs')))))"

definition handle_statement ::
  "vex_env \<Rightarrow> plugin_ops \<Rightarrow> solver_env \<Rightarrow> stmt \<Rightarrow> sim_state \<Rightarrow> successors
   \<Rightarrow> (engine_error + unit) \<times> sim_state \<times> successors" where
  "handle_statement V P E stmt state succs =
     (case handle_imark V P E stmt state of
        (Inl e, s1) \<Rightarrow> (Inl e, s1, succs)
      | (Inr u, s1) \<Rightarrow>
          (case translate_stmt V stmt s1 of
             (Inl e, s2) \<Rightarrow> (Inl e, s2, succs)
           | (Inr s_stmt, s2) \<Rightarrow>
               (let s3 = (case s_stmt of
                            Some ss \<Rightarrow> update_plugin P ''history''
                                         (\<lambda>h. history_extend_actions V h (s_actions ss)) s2
                          | None \<Rightarrow> s2)
                in case stmt of
                     Exit x \<Rightarrow> handle_exit V P E s_stmt s3 succs
                   | _ \<Rightarrow> (Inr (), s3, succs))))"

subsection \<open>Blocks\<close>

text \<open>
  The statement loop of \<open>_handle_irsb\<close> over \<open>enumerate(ss)\<close>. It returns
  \<open>Inr True\<close> after the last statement, \<open>Inr False\<close> when a solver or memory-address
  error broke it off (no default exit then), and \<open>Inl\<close> for an error that leaves the
  method; with the outcome come the instruction addresses, the state and the
  successors.
\<close>

definition instruction_after :: "solver_env \<Rightarrow> int list \<Rightarrow> sim_state \<Rightarrow> sim_state" where
  "instruction_after E insn_addrs state =
     (if insn_addrs \<noteq> []
      then inspect E ''instruction'' BP_AFTER (Instruction (last insn_addrs)) state
      else state)"

fun handle_stmts ::
  "vex_env \<Rightarrow> plugin_ops \<Rightarrow> solver_env \<Rightarrow> (nat \<times> stmt) list \<Rightarrow> nat \<Rightarrow> nat \<Rightarrow> nat option
   \<Rightarrow> nat list option \<Rightarrow> int list \<Rightarrow> sim_state \<Rightarrow> successors
   \<Rightarrow> (engine_error + bool) \<times> int list \<times> sim_state \<times> successors" where
  "handle_stmts V P E [] num_stmts skip_stmts last_stmt whitelist insn_addrs state succs =
     (Inr True, insn_addrs, state, succs)"
| "handle_stmts V P E ((idx, stmt) # rest) num_stmts skip_stmts last_stmt whitelist insn_addrs
     state succs =
     (let state1 = (case stmt of
                      IMark addr len delta \<Rightarrow> instruction_after E insn_addrs state
                    | _ \<Rightarrow> state);
          insn_addrs1 = (case stmt of
                           IMark addr len delta \<Rightarrow> insn_addrs @ [addr + delta]
                         | _ \<Rightarrow> insn_addrs)
      in if idx < skip_stmts
           \<or> (case last_stmt of Some l \<Rightarrow> idx > l | None \<Rightarrow> False)
           \<or> (case whitelist of Some wl \<Rightarrow> idx \<notin> set wl | None \<Rightarrow> False)
         then handle_stmts V P E rest num_stmts skip_stmts last_stmt whitelist insn_addrs1
                state1 succs
         else
           (let s2 = map_scratch P (\<lambda>sc. sc\<lparr>stmt_idx := idx\<rparr>) state1;
                s3 = inspect E ''statement'' BP_BEFORE (Statement idx) s2
            in case handle_statement V P E stmt s3 succs of
                 (Inr u, s4, succs') \<Rightarrow>
                   (let s5 = inspect E ''statement'' BP_AFTER NoArg s4;
                        s6 = (if idx + 1 \<ge> num_stmts then instruction_after E insn_addrs1 s5
                              else s5)
                    in handle_stmts V P E rest num_stmts skip_stmts last_stmt whitelist
                         insn_addrs1 s6 succs')
               | (Inl UnsupportedDirtyError, s4, succs') \<Rightarrow>
                   (if BYPASS_UNSUPPORTED_IRDIRTY \<notin> options s4
                    then (Inl UnsupportedDirtyError, insn_addrs1, s4, succs')
                    else
                      (case stmt of
                         Dirty tmp name \<Rightarrow>
                           (let s5 = (if tmp \<noteq> 4294967295 \<and> tmp \<noteq> - 1
                                      then map_scratch P
                                             (\<lambda>sc. sc\<lparr>temps := setitem (temps sc) tmp
                                                      (unconstrained V (''unsupported_dirty_'' @ name)
                                                         (tyenv_sizeof V (tyenv sc) tmp))\<rparr>)
                                             s4
                                      else s4);
                                s6 = update_plugin P ''history''
                                       (\<lambda>h. history_add_event V h ''resilience'') s5;
                                s7 = (if idx + 1 \<ge> num_stmts
                                      then instruction_after E insn_addrs1 s6 else s6)
                            in handle_stmts V P E rest num_stmts skip_stmts last_stmt whitelist
                                 insn_addrs1 s7 succs')
                       | _ \<Rightarrow> (Inl (PyError (AttributeError ''tmp'')), insn_addrs1, s4, succs')))
               | (Inl SimSolverError, s4, succs') \<Rightarrow> (Inr False, insn_addrs1, s4, succs')
               | (Inl SimMemoryAddressError, s4, succs') \<Rightarrow> (Inr False, insn_addrs1, s4, succs')
               | (Inl e, s4, succs') \<Rightarrow> (Inl e, insn_addrs1, s4, succs')))"

text \<open>
  The option \<open>SUPER_FASTPATH\<close>: the statements are walked from the last one, and at
  the fourth instruction mark \<open>skip_stmts\<close> becomes its index if that is larger.
\<close>

fun super_fastpath :: "(nat \<times> stmt) list \<Rightarrow> nat \<Rightarrow> nat \<Rightarrow> nat" where
  "super_fastpath [] imark_counter skip_stmts = skip_stmts"
| "super_fastpath ((i, IMark addr len delta) # rest) imark_counter skip_stmts =
     (if imark_counter + 1 \<ge> 4 then max skip_stmts i
      else super_fastpath rest (imark_counter + 1) skip_stmts)"
| "super_fastpath ((i, s) # rest) imark_counter skip_stmts =
     super_fastpath rest imark_counter skip_stmts"

text \<open>
  The default exit: a \<open>KeyError\<close> of the translation files the state as
  unsatisfiable, any other error leaves the method.
\<close>

definition default_exit ::
  "vex_env \<Rightarrow> plugin_ops \<Rightarrow> solver_env \<Rightarrow> irsb \<Rightarrow> sim_state \<Rightarrow> successors
   \<Rightarrow> (engine_error + unit) \<times> sim_state \<times> successors" where
  "default_exit V P E b state succs =
     (case translate_expr V (irsb_next b) state of
        (Inl (PyError KeyError), s1) \<Rightarrow>
          (Inr (), s1, succs\<lparr>unsat_successors := unsat_successors succs @ [s1]\<rparr>)
      | (Inl e, s1) \<Rightarrow> (Inl e, s1, succs)
      | (Inr next_expr, s1) \<Rightarrow>
          (let s2 = update_plugin P ''history''
                      (\<lambda>h. history_extend_actions V h (e_actions next_expr)) s1;
               s3 = (if TRACK_JMP_ACTIONS \<in> options s2
                     then update_plugin P ''history''
                            (\<lambda>h. history_add_action E h
                                    (SimActionExit (e_expr next_expr) ''default'')) s2
                     else s2);
               sc = scratch_of P s3
           in case add_successor V succs (snd (get_plugin P ''scratch'' s3)) (e_expr next_expr)
                     (guard sc) (irsb_jumpkind b) DefaultExit (ins_addr sc) of
                (Inl (PyError KeyError), succs') \<Rightarrow>
                  (Inr (), snd (get_plugin P ''scratch'' s3),
                   succs'\<lparr>unsat_successors :=
                             unsat_successors succs' @ [snd (get_plugin P ''scratch'' s3)]\<rparr>)
              | (Inl e, succs') \<Rightarrow> (Inl e, snd (get_plugin P ''scratch'' s3), succs')
              | (Inr u, succs') \<Rightarrow> (Inr (), snd (get_plugin P ''scratch'' s3), succs')))"

text \<open>
  \<open>_handle_irsb\<close>. In Python 2 the comparison \<open>num_stmts <= None\<close> is false. The
  loop over the successors that emulates returns and call-less execution works on the
  collector's own lists and is the parameter \<open>emulate_returns\<close>.
\<close>

definition handle_irsb ::
  "vex_env \<Rightarrow> plugin_ops \<Rightarrow> solver_env \<Rightarrow> sim_state \<Rightarrow> successors \<Rightarrow> irsb \<Rightarrow> nat \<Rightarrow> nat option
   \<Rightarrow> nat list option \<Rightarrow> (engine_error + unit) \<times> sim_state \<times> successors" where
  "handle_irsb V P E state succs b skip_stmts last_stmt whitelist =
     (let ss = statements b;
          num_stmts = length ss;
          succs1 = succs\<lparr>artifact_irsb := Some b\<rparr>;
          has_default_exit = (case last_stmt of Some l \<Rightarrow> num_stmts \<le> l | None \<Rightarrow> False);
          skip_stmts1 = (if SUPER_FASTPATH \<in> options state
                         then super_fastpath (rev (enumerate 0 ss)) 0 skip_stmts
                         else skip_stmts)
      in case handle_stmts V P E (enumerate 0 ss) num_stmts skip_stmts1 last_stmt whitelist []
                state succs1 of
           (Inl e, insn_addrs, s1, succs2) \<Rightarrow> (Inl e, s1, succs2)
         | (Inr completed, insn_addrs, s1, succs2) \<Rightarrow>
             (let s2 = map_scratch P (\<lambda>sc. sc\<lparr>stmt_idx := num_stmts\<rparr>) s1;
                  succs3 = succs2\<lparr>artifact_insn_addrs := insn_addrs\<rparr>
              in case (if has_default_exit \<and> completed then default_exit V P E b s2 succs3
                       else (Inr (), s2, succs3)) of
                   (Inl e, s3, succs4) \<Rightarrow> (Inl e, s3, succs4)
                 | (Inr u, s3, succs4) \<Rightarrow>
                     (let succs5 = emulate_returns V s3 succs4 b;
                          succs6 = (if (case whitelist of Some wl \<Rightarrow> wl \<noteq> [] | None \<Rightarrow> False)
                                       \<and> is_empty V succs5
                                    then succs5\<lparr>flat_successors := flat_successors succs5 @ [s3]\<rparr>
                                    else succs5)
                      in (Inr (), s3, succs6))))"

subsection \<open>Processing a state\<close>

record process_args =
  p_irsb :: "irsb option"
  p_skip_stmts :: nat
  p_last_stmt :: "nat option"
  p_whitelist :: "nat list option"
  p_insn_bytes :: "bytes option"
  p_size :: "int option"
  p_num_inst :: "int option"
  p_traceflags :: int
  p_thumb :: bool
  p_opt_level :: "int option"

text \<open>
  One pass of the \<open>while True\<close> loop of \<open>_process\<close>: it ends the method, with a
  result or an error, or asks for a re-lift at a new address with the reduced size and
  instruction count.
\<close>

datatype process_step =
    Finished "engine_error + unit" engine sim_state successors
  | Again engine sim_state successors int "int option" "int option"

definition check_permissions :: "vex_env \<Rightarrow> sim_state \<Rightarrow> int \<Rightarrow> engine_error option" where
  "check_permissions V state addr =
     (if STRICT_PAGE_ACCESS \<in> options state then
        (case permissions V state addr of
           PermError \<Rightarrow> Some (SimSegfaultError addr ''exec-miss'')
         | PermSymbolic \<Rightarrow> None
         | PermConcrete p \<Rightarrow>
             if \<not> bit p 2 \<and> ENABLE_NX \<in> options state
             then Some (SimSegfaultError addr ''non-executable'') else None)
      else None)"

text \<open>
  The head of the loop body: the block (lifted when none is at hand), the test for an
  empty block, the permission check, and the block entered into the scratch.
\<close>

definition prepare_block ::
  "vex_env \<Rightarrow> plugin_ops \<Rightarrow> process_args \<Rightarrow> engine \<Rightarrow> sim_state \<Rightarrow> irsb option \<Rightarrow> int
   \<Rightarrow> int option \<Rightarrow> int option \<Rightarrow> (engine_error + irsb) \<times> engine \<times> sim_state" where
  "prepare_block V P args eng state blk addr sz num_inst =
     (case (case blk of
              Some b \<Rightarrow> (Inr b, eng, Some state)
            | None \<Rightarrow> lift V eng
                       \<lparr>a_state = Some state, a_clemory = None,
                        a_insn_bytes = p_insn_bytes args, a_arch = None, a_addr = Some addr,
                        a_size = sz, a_num_inst = num_inst, a_traceflags = p_traceflags args,
                        a_thumb = p_thumb args, a_opt_level = p_opt_level args\<rparr>) of
        (Inl e, eng1, st) \<Rightarrow> (Inl e, eng1, case st of Some s \<Rightarrow> s | None \<Rightarrow> state)
      | (Inr b, eng1, st) \<Rightarrow>
          (let state1 = (case st of Some s \<Rightarrow> s | None \<Rightarrow> state)
           in if irsb_size b = 0
              then (Inl (SimIRSBError ''Empty IRSB passed to SimIRSB.''), eng1, state1)
              else
                (case check_permissions V state1 addr of
                   Some e \<Rightarrow> (Inl e, eng1, state1)
                 | None \<Rightarrow>
                     (Inr b, eng1,
                      map_scratch P (\<lambda>sc. sc\<lparr>tyenv := Some (irsb_tyenv b), irsb := Some b\<rparr>)
                        state1))))"

definition process_iteration ::
  "vex_env \<Rightarrow> plugin_ops \<Rightarrow> solver_env \<Rightarrow> process_args \<Rightarrow> engine \<Rightarrow> sim_state \<Rightarrow> successors
   \<Rightarrow> irsb option \<Rightarrow> int \<Rightarrow> int option \<Rightarrow> int option \<Rightarrow> process_step" where
  "process_iteration V P E args eng state succs blk addr sz num_inst =
     (case prepare_block V P args eng state blk addr sz num_inst of
        (Inl e, eng1, state1) \<Rightarrow> Finished (Inl e) eng1 state1 succs
      | (Inr b, eng1, state2) \<Rightarrow>
          (case handle_irsb V P E state2 succs b (p_skip_stmts args) (p_last_stmt args)
                  (p_whitelist args) of
             (Inl SimReliftException, s3, succs3) \<Rightarrow>
               (if p_insn_bytes args \<noteq> None
                then Finished
                       (Inl (SimEngineError
                          ''You cannot pass self-modifying code as insn_bytes!!!''))
                       eng1 s3 succs3
                else
                  (let new_ip = ins_addr (scratch_of P s3);
                       sz' = map_option (\<lambda>s. s - (new_ip - addr)) sz;
                       num_inst' = map_option (\<lambda>n. n - num_insns (scratch_of P s3)) num_inst;
                       s4 = map_scratch P (\<lambda>sc. sc\<lparr>dirty_addrs := {}\<rparr>) s3
                   in Again eng1 s4 succs3 new_ip sz' num_inst'))
           | (Inl e, s3, succs3) \<Rightarrow> Finished (Inl e) eng1 s3 succs3
           | (Inr u, s3, succs3) \<Rightarrow> Finished (Inr ()) eng1 s3 succs3))"

text \<open>
  The loop itself. Nothing bounds the number of re-lifts, so the loop is a partial
  function: \<open>None\<close> stands for a run that never leaves it.
\<close>

partial_function (option) process_loop ::
  "vex_env \<Rightarrow> plugin_ops \<Rightarrow> solver_env \<Rightarrow> process_args \<Rightarrow> engine \<Rightarrow> sim_state \<Rightarrow> successors
   \<Rightarrow> irsb option \<Rightarrow> int \<Rightarrow> int option \<Rightarrow> int option
   \<Rightarrow> ((engine_error + unit) \<times> engine \<times> sim_state \<times> successors) option" where
  "process_loop V P E args eng state succs blk addr sz num_inst =
     (case process_iteration V P E args eng state succs blk addr sz num_inst of
        Finished r eng' state' succs' \<Rightarrow> Some (r, eng', state', succs')
      | Again eng' state' succs' addr' sz' num_inst' \<Rightarrow>
          process_loop V P E args eng' state' succs' None addr' sz' num_inst')"

declare process_loop.simps [code]

text \<open>
  \<open>_process(state, successors, irsb, skip_stmts, last_stmt, whitelist, insn_bytes,
  size, num_inst, traceflags, thumb, opt_level)\<close>, the method that \<open>process\<close>
  reaches through the base class: the error it raises, if any, goes to the caller.
\<close>

definition process_start ::
  "vex_env \<Rightarrow> plugin_ops \<Rightarrow> solver_env \<Rightarrow> sim_state \<Rightarrow> successors \<Rightarrow> sim_state \<times> successors" where
  "process_start V P E state succs =
     (let succs1 = succs\<lparr>sort := ''IRSB'', description := ''IRSB''\<rparr>;
          s1 = update_plugin P ''history'' (\<lambda>h. history_set_recent_block_count V h 1) state;
          s2 = map_scratch P (\<lambda>sc. sc\<lparr>guard := BoolV True, sim_procedure := None\<rparr>) s1
      in (inspect E ''irsb'' BP_BEFORE (Address (succ_addr succs1)) s2, succs1))"

definition process ::
  "vex_env \<Rightarrow> plugin_ops \<Rightarrow> solver_env \<Rightarrow> engine \<Rightarrow> sim_state \<Rightarrow> successors \<Rightarrow> process_args
   \<Rightarrow> ((engine_error + unit) \<times> engine \<times> sim_state \<times> successors) option" where
  "process V P E eng state succs args =
     (case process_start V P E state succs of
        (s3, succs1) \<Rightarrow>
          (case process_loop V P E args eng s3 succs1 (p_irsb args) (succ_addr succs1)
                  (p_size args) (p_num_inst args) of
             None \<Rightarrow> None
           | Some (Inl e, eng', s4, succs2) \<Rightarrow> Some (Inl e, eng', s4, succs2)
           | Some (Inr u, eng', s4, succs2) \<Rightarrow>
               Some (Inr (), eng', inspect E ''irsb'' BP_AFTER NoArg s4,
                     succs2\<lparr>processed := True\<rparr>)))"

subsection \<open>An instance of the engine's collaborators\<close>

text \<open>
  A lifter of two-byte instructions, a memory image read as a whole, a translation
  that gives every conditional exit the guard \<open>exit_guard\<close>, and a collector that
  keeps what it is given.
\<close>

definition example_lifter ::
  "bytes \<Rightarrow> int \<Rightarrow> arch_info \<Rightarrow> int \<Rightarrow> int option \<Rightarrow> int \<Rightarrow> int \<Rightarrow> int \<Rightarrow> irsb option" where
  "example_lifter buff addr ar num_bytes num_inst off tf ol =
     Some \<lparr>irsb_id = 0,
           statements = map (\<lambda>i. IMark (addr + 2 * int i) 2 0)
                            [0 ..< nat (min num_bytes (int (length buff))) div 2],
           irsb_size = min num_bytes (int (length buff)),
           irsb_next = 0, irsb_jumpkind = ''Ijk_Boring'', direct_next = True,
           irsb_tyenv = 0\<rparr>"

definition example_vex :: vex_env where
  "example_vex =
     \<lparr>pyvex_IRSB = example_lifter,
      read_bytes_c = (\<lambda>cl addr. Some (map snd (cl_content cl), int (length (cl_content cl)))),
      abstract_memory_backer = (\<lambda>st. \<lparr>cl_arch = arch st, cl_content = []\<rparr>),
      symbolic_memory_backer = (\<lambda>st. \<lparr>cl_arch = arch st, cl_content = []\<rparr>),
      permissions = (\<lambda>st addr. PermSymbolic),
      any_int_ip = (\<lambda>st. 0),
      mem_contains = (\<lambda>st addr. False),
      mem_load_str = (\<lambda>st addr n. []),
      mem_load_byte = (\<lambda>st addr. 0),
      translate_stmt =
        (\<lambda>stmt st.
           (Inr (case stmt of
                   Exit x \<Rightarrow> Some \<lparr>s_guard = BVS ''exit_guard'' 1, s_target = IntV (int x),
                                    s_jumpkind = ''Ijk_Boring'', s_actions = []\<rparr>
                 | _ \<Rightarrow> None), st)),
      translate_expr = (\<lambda>n st. (Inr \<lparr>e_expr = IntV (int n), e_actions = []\<rparr>, st)),
      add_successor =
        (\<lambda>succs st target g jk idx ia.
           (Inr (), succs\<lparr>added := added succs @ [(st, target, g, jk, idx, ia)]\<rparr>)),
      emulate_returns = (\<lambda>st succs b. succs),
      is_empty = (\<lambda>succs. added succs = []),
      unconstrained = (\<lambda>name bits. BVS name bits),
      tyenv_sizeof = (\<lambda>ty tmp. 32),
      history_extend_actions = (\<lambda>h acts. h),
      history_append_ins_addr = (\<lambda>h a. h),
      history_set_recent_block_count = (\<lambda>h n. h),
      history_add_event = (\<lambda>h ev. h)\<rparr>"

definition example_successors :: successors where
  "example_successors =
     \<lparr>succ_addr = 0, sort = [], description = [], processed = False, artifact_irsb = None,
      artifact_insn_addrs = [], unsat_successors = [], flat_successors = [], added = []\<rparr>"

text \<open>
  An engine with a cache of one block, and a call of \<open>lift\<close> at address 0 of an
  image of eight bytes. \<open>example_hooked_engine\<close> is this engine after one such call
  and after address 4 has then become a stop point.
\<close>

definition example_engine :: engine where
  "example_engine =
     \<lparr>stop_points = Some {}, use_cache = True, default_opt_level = 1,
      support_selfmodifying_code = False, single_step = False, cache_size = 1,
      block_cache = [], cache_hit_count = 0, cache_miss_count = 0, next_id = 0\<rparr>"



text \<open>
  A call of \<open>_process\<close> with explicit bytes on a block of one instruction, from a
  state in which a byte of that instruction is marked dirty.
\<close>

definition example_process_args :: process_args where
  "example_process_args =
     \<lparr>p_irsb = Some \<lparr>irsb_id = 0, statements = [IMark 0 2 0], irsb_size = 2, irsb_next = 0,
                      irsb_jumpkind = ''Ijk_Boring'', direct_next = True, irsb_tyenv = 0\<rparr>,
      p_skip_stmts = 0, p_last_stmt = Some 99999999, p_whitelist = None,
      p_insn_bytes = Some [1, 2], p_size = None, p_num_inst = None, p_traceflags = 0,
      p_thumb = False, p_opt_level = None\<rparr>"

definition example_dirty_state :: sim_state where
  "example_dirty_state =
     register_plugin ''scratch'' (SimStateScratch (default_scratch\<lparr>dirty_addrs := {1}\<rparr>))
       (example_state ''X86'' {})"

subsection \<open>Properties of the globals merge\<close>

lemma map_of_setitem: "map_of (setitem d k v) = (map_of d)(k \<mapsto> v)"
  by (simp add: setitem_def update_conv')

lemma merge_keys_total:
  "set ks \<subseteq> fst ` set other \<Longrightarrow> \<exists>m. merge_keys self other ks = Inr m"
proof (induction ks arbitrary: self)
  case Nil
  then show ?case by simp
next
  case (Cons k ks)
  then have "k \<in> fst ` set other" by simp
  then obtain v where "map_of other k = Some v"
    by (metis domD dom_map_of_conv_image_fst)
  with Cons show ?case by (simp add: getitem_def)
qed

lemma merge_keys_map_of:
  "merge_keys self other ks = Inr m \<Longrightarrow>
   map_of m k = (case map_of self k of
                   Some v \<Rightarrow> Some v
                 | None \<Rightarrow> if k \<in> set ks then map_of other k else None)"
proof (induction ks arbitrary: self)
  case Nil
  then show ?case by (auto split: option.splits)
next
  case (Cons a ks)
  show ?case
  proof (cases "contains self a")
    case True
    with Cons.prems have "merge_keys self other ks = Inr m" by simp
    from Cons.IH [OF this] True show ?thesis
      by (auto simp: contains_def split: option.splits)
  next
    case False
    with Cons.prems obtain v where v: "map_of other a = Some v"
      and m: "merge_keys (setitem self a v) other ks = Inr m"
      by (auto simp: getitem_def split: option.splits)
    from Cons.IH [OF m] False v show ?thesis
      by (auto simp: contains_def map_of_setitem split: option.splits if_splits)
  qed
qed

lemma merge_others_total: "\<exists>m. merge_others self others = Inr m"
proof (induction others arbitrary: self)
  case Nil
  then show ?case by simp
next
  case (Cons other others)
  have "set (keys other) \<subseteq> fst ` set other" by (simp add: keys_def)
  from merge_keys_total [OF this] obtain m1 where "merge_keys self other (keys other) = Inr m1"
    by blast
  with Cons show ?case by simp
qed

lemma merge_others_map_of:
  "merge_others self others = Inr m \<Longrightarrow>
   map_of m k = (case map_of self k of Some v \<Rightarrow> Some v | None \<Rightarrow> first_writer others k)"
proof (induction others arbitrary: self)
  case Nil
  then show ?case by (auto split: option.splits)
next
  case (Cons other others)
  then obtain m1 where m1: "merge_keys self other (keys other) = Inr m1"
    and m: "merge_others m1 others = Inr m"
    by (auto split: sum.splits)
  have in_keys: "map_of other k \<noteq> None \<Longrightarrow> k \<in> set (keys other)"
    by (auto simp: keys_def map_of_eq_None_iff)
  have out_keys: "map_of other k = None \<Longrightarrow> k \<notin> set (keys other)"
    by (auto simp: keys_def map_of_eq_None_iff)
  from merge_keys_map_of [OF m1, of k] Cons.IH [OF m] in_keys out_keys show ?case
    by (auto split: option.splits if_splits)
qed

text \<open>
  C10. The merge of the globals plugin always returns \<open>True\<close>; every key of the
  receiver keeps its value; a key the receiver lacks gets the value of the first of
  the other states that holds it (and stays absent when none does); with no other
  state, nothing changes and the report is \<open>True\<close> all the same.
\<close>

theorem globals_merge_first_writer_wins:
  "\<exists>m. globals_merge self others merge_conditions common_ancestor = Inr (m, True)
       \<and> (\<forall>k v. map_of self k = Some v \<longrightarrow> map_of m k = Some v)
       \<and> (\<forall>k. map_of self k = None \<longrightarrow> map_of m k = first_writer others k)
       \<and> (others = [] \<longrightarrow> m = self)"
proof -
  obtain m where m: "merge_others self others = Inr m"
    using merge_others_total by blast
  have "globals_merge self others merge_conditions common_ancestor = Inr (m, True)"
    by (simp add: globals_merge_def m)
  moreover have "\<forall>k v. map_of self k = Some v \<longrightarrow> map_of m k = Some v"
    using merge_others_map_of [OF m] by simp
  moreover have "\<forall>k. map_of self k = None \<longrightarrow> map_of m k = first_writer others k"
    using merge_others_map_of [OF m] by simp
  moreover have "others = [] \<longrightarrow> m = self"
    using m by auto
  ultimately show ?thesis by blast
qed

theorem globals_merge_first_writer_wins_witness:
  "globals_merge [(''a'', 1::int)] [[(''a'', 2), (''b'', 3)], [(''b'', 4), (''c'', 5)]] () ()
     = Inr ([(''a'', 1), (''b'', 3), (''c'', 5)], True)
   \<and> globals_merge [(''a'', 1::int)] [[(''a'', 7)]] () () = Inr ([(''a'', 1)], True)"
proof -
  have "globals_merge [(''a'', 1::int)] [[(''a'', 2), (''b'', 3)], [(''b'', 4), (''c'', 5)]] () ()
     = Inr ([(''a'', 1), (''b'', 3), (''c'', 5)], True)"
    by (simp add: globals_merge_def keys_def contains_def getitem_def setitem_def)
  moreover have "globals_merge [(''a'', 1::int)] [[(''a'', 7)]] () () = Inr ([(''a'', 1)], True)"
    by (simp add: globals_merge_def keys_def contains_def getitem_def setitem_def)
  ultimately show ?thesis
    using globals_merge_first_writer_wins [of "[(''a'', 1::int)]" "[[(''a'', 7)]]" "()" "()"]
    by simp
qed

section \<open>Properties of the state\<close>

subsection \<open>What the operations leave alone\<close>

lemma get_plugin_frame [simp]:
  "satisfiable_flag (snd (get_plugin P n s)) = satisfiable_flag s"
  "options (snd (get_plugin P n s)) = options s"
  "global_condition (snd (get_plugin P n s)) = global_condition s"
  by (auto simp: get_plugin_def register_plugin_def Let_def split: option.splits)

lemma se_frame [simp]:
  "satisfiable_flag (se P s) = satisfiable_flag s"
  "options (se P s) = options s"
  "global_condition (se P s) = global_condition s"
  by (simp_all add: se_def get_plugin_frame)

lemma update_plugin_frame [simp]:
  "satisfiable_flag (update_plugin P n f s) = satisfiable_flag s"
  "options (update_plugin P n f s) = options s"
  "global_condition (update_plugin P n f s) = global_condition s"
  by (auto simp: update_plugin_def get_plugin_def register_plugin_def Let_def split: option.splits prod.splits)

lemma inspect_frame [simp]:
  "satisfiable_flag (inspect E ev w a s) = satisfiable_flag s"
  "options (inspect E ev w a s) = options s"
  "global_condition (inspect E ev w a s) = global_condition s"
  by (simp_all add: inspect_def)

lemma add_constraint_actions_frame [simp]:
  "satisfiable_flag (add_constraint_actions P E cs s) = satisfiable_flag s"
  "options (add_constraint_actions P E cs s) = options s"
  "global_condition (add_constraint_actions P E cs s) = global_condition s"
  by (induction cs arbitrary: s; simp)+

lemma add_symbolic_actions_frame [simp]:
  "satisfiable_flag (add_symbolic_actions P E cs s) = satisfiable_flag s"
  "options (add_symbolic_actions P E cs s) = options s"
  "global_condition (add_symbolic_actions P E cs s) = global_condition s"
  by (induction cs arbitrary: s; simp)+

lemma track_constraints_frame [simp]:
  "satisfiable_flag (track_constraints P E args s) = satisfiable_flag s"
  "options (track_constraints P E args s) = options s"
  "global_condition (track_constraints P E args s) = global_condition s"
  by (simp_all add: track_constraints_def Let_def case_prod_beta get_plugin_frame)

lemma apply_converted_frame [simp]:
  "satisfiable_flag (apply_converted P E cv s) = satisfiable_flag s"
  "options (apply_converted P E cv s) = options s"
  "global_condition (apply_converted P E cv s) = global_condition s"
  by (induction P E cv s rule: apply_converted.induct; simp)+

lemma abstract_constraints_frame [simp]:
  "options (abstract_constraints P E args s) = options s"
  "global_condition (abstract_constraints P E args s) = global_condition s"
  by (induction args arbitrary: s; simp)+

lemma abstract_constraints_flag:
  "satisfiable_flag (abstract_constraints P E args s) =
     (satisfiable_flag s \<and>
      \<not> (\<exists>arg \<in> set args. is_false E arg \<or> (\<not> is_true E arg \<and> vsa_is_false E arg)))"
  by (induction args arbitrary: s) auto

lemma nonsymbolic_constraints_frame [simp]:
  "options (nonsymbolic_constraints P E args s) = options s"
  "global_condition (nonsymbolic_constraints P E args s) = global_condition s"
  by (induction args arbitrary: s; simp)+

lemma nonsymbolic_constraints_flag:
  "satisfiable_flag (nonsymbolic_constraints P E args s) =
     (satisfiable_flag s \<and> \<not> (\<exists>arg \<in> set args. is_false E arg))"
  by (induction args arbitrary: s) auto

lemma record_constraints_frame [simp]:
  "satisfiable_flag (record_constraints P E args action s) = satisfiable_flag s"
  "options (record_constraints P E args action s) = options s"
  "global_condition (record_constraints P E args action s) = global_condition s"
  by (simp_all add: record_constraints_def)

lemma add_constraints_frame [simp]:
  "options (add_constraints P E args action s) = options s"
  "global_condition (add_constraints P E args action s) = global_condition s"
  by (simp_all add: add_constraints_def Let_def)

lemma add_constraints_flag:
  "satisfiable_flag (add_constraints P E args action s) =
     (satisfiable_flag s \<and>
      \<not> (if ABSTRACT_SOLVER \<in> options s
         then \<exists>arg \<in> set args. is_false E arg \<or> (\<not> is_true E arg \<and> vsa_is_false E arg)
         else SYMBOLIC \<notin> options s \<and> (\<exists>arg \<in> set args. is_false E arg)))"
  by (auto simp: add_constraints_def Let_def abstract_constraints_flag nonsymbolic_constraints_flag)


lemma with_condition_inside:
  "with_condition P c body s =
     (let s_in = (case global_condition s of None \<Rightarrow> s | Some oc \<Rightarrow> se P s)
                   \<lparr>global_condition :=
                      Some (case global_condition s of None \<Rightarrow> c | Some oc \<Rightarrow> OpAnd [oc, c])\<rparr>
      in (fst (body s_in), (snd (body s_in))\<lparr>global_condition := global_condition s\<rparr>))"
  by (simp add: with_condition_def Let_def case_prod_beta split: option.splits)

lemma register_plugin_frame [simp]:
  "satisfiable_flag (register_plugin n p s) = satisfiable_flag s"
  "options (register_plugin n p s) = options s"
  "global_condition (register_plugin n p s) = global_condition s"
  by (simp_all add: register_plugin_def)

lemma release_plugin_flag [simp]:
  "satisfiable_flag (release_plugin n s) = satisfiable_flag s"
  by (simp add: release_plugin_def)

lemma satisfiable_snd_flag [simp]:
  "satisfiable_flag (snd (satisfiable P E extra s)) = satisfiable_flag s"
  by (simp add: satisfiable_def case_prod_beta)

lemma merge_receiver_flag [simp]:
  "satisfiable_flag (merge_receiver P s others merge_conditions kwargs) = satisfiable_flag s"
  by (simp add: merge_receiver_def Let_def split: sum.splits)

lemma run_op_flag_one_way:
  "satisfiable_flag (run_op P E x s) \<Longrightarrow> satisfiable_flag s"
  and run_ops_flag_one_way:
  "satisfiable_flag (run_ops P E xs s) \<Longrightarrow> satisfiable_flag s"
proof (induction P E x s and P E xs s rule: run_op_run_ops.induct)
  case (1 P E args action s)
  then show ?case by (simp add: add_constraints_flag)
next
  case (7 P E c body s)
  let ?s_in = "(case global_condition s of None \<Rightarrow> s | Some oc \<Rightarrow> se P s)
                   \<lparr>global_condition :=
                      Some (case global_condition s of None \<Rightarrow> c | Some oc \<Rightarrow> OpAnd [oc, c])\<rparr>"
  from "7.prems" have "satisfiable_flag (run_ops P E body ?s_in)"
    by (simp add: with_condition_inside Let_def)
  then have "satisfiable_flag ?s_in" by (rule "7.IH")
  then show ?case by (simp split: option.splits)
qed (simp_all add: set_mode_def merge_receiver_flag)



lemma example_env_simps [simp]:
  "is_false example_env e = (e = BoolV False)"
  "is_true example_env e = (e = BoolV True)"
  "vsa_is_false example_env e = (e = BoolV False)"
  "vsa_is_true example_env e = (e = BoolV True)"
  "simplify example_env e = e"
  "constraint_to_si example_env e = []"
  "history_add_action example_env h a = h"
  "history_set_parent example_env h h' = h"
  "bp_action example_env ev w arg d = d"
  "se_satisfiable example_env p extra = True"
  "se_add example_env (SimSolver store) cs = (SimSolver (store @ cs), cs)"
  by (simp_all add: example_env_def)

lemma example_ops_simps [simp]:
  "copy_plugin example_ops p = p"
  "merge_plugin example_ops n p others conds anc = Inr (p, False)"
  "widen_plugin example_ops n p others = Inr (p, False)"
  "default_plugins example_ops ''solver_engine'' = SimSolver []"
  "new_plugin example_ops cls = OtherPlugin cls []"
  by (simp_all add: example_ops_def)

subsection \<open>The scoped global condition\<close>

text \<open>
  C9. Leaving a scope of \<open>with_condition\<close> restores the global condition that was
  active on entry, whatever the body did and whether it returned or raised; inside the
  scope the condition is \<open>c\<close> when none was active, and the conjunction of the active
  one with \<open>c\<close> otherwise.
\<close>

theorem with_condition_nests_and_restores:
  "global_condition (snd (with_condition P c body s)) = global_condition s
   \<and> fst (with_condition P c (\<lambda>s'. (Inr (global_condition s'), s')) s)
       = Inr (Some (case global_condition s of None \<Rightarrow> c | Some oc \<Rightarrow> OpAnd [oc, c]))
   \<and> (\<exists>s_in. global_condition s_in
                = Some (case global_condition s of None \<Rightarrow> c | Some oc \<Rightarrow> OpAnd [oc, c])
            \<and> with_condition P c body s
                = (fst (body s_in), (snd (body s_in))\<lparr>global_condition := global_condition s\<rparr>))"
proof -
  have "global_condition (snd (with_condition P c body s)) = global_condition s"
    by (simp add: with_condition_inside Let_def)
  moreover have "fst (with_condition P c (\<lambda>s'. (Inr (global_condition s'), s')) s)
       = Inr (Some (case global_condition s of None \<Rightarrow> c | Some oc \<Rightarrow> OpAnd [oc, c]))"
    by (simp add: with_condition_inside Let_def)
  moreover have "\<exists>s_in. global_condition s_in
                = Some (case global_condition s of None \<Rightarrow> c | Some oc \<Rightarrow> OpAnd [oc, c])
            \<and> with_condition P c body s
                = (fst (body s_in), (snd (body s_in))\<lparr>global_condition := global_condition s\<rparr>)"
    by (rule exI [of _ "(case global_condition s of None \<Rightarrow> s | Some oc \<Rightarrow> se P s)
                   \<lparr>global_condition :=
                      Some (case global_condition s of None \<Rightarrow> c | Some oc \<Rightarrow> OpAnd [oc, c])\<rparr>"])
       (simp add: with_condition_inside Let_def)
  ultimately show ?thesis by blast
qed

theorem with_condition_nests_and_restores_witness:
  "fst (with_condition example_ops (BVS ''c1'' 1)
          (with_condition example_ops (BVS ''c2'' 1) (\<lambda>s'. (Inr (global_condition s'), s')))
          (example_state ''X86'' {}))
     = Inr (Some (OpAnd [BVS ''c1'' 1, BVS ''c2'' 1]))
   \<and> global_condition
         (snd (with_condition example_ops (BVS ''c1'' 1)
                 (\<lambda>s'. (Inl (ValueError ''raised in the body''), s'\<lparr>global_condition := None\<rparr>))
                 ((example_state ''X86'' {})\<lparr>global_condition := Some (BVS ''c0'' 1)\<rparr>)))
       = Some (BVS ''c0'' 1)"
proof -
  have "fst (with_condition example_ops (BVS ''c1'' 1)
          (with_condition example_ops (BVS ''c2'' 1) (\<lambda>s'. (Inr (global_condition s'), s')))
          (example_state ''X86'' {}))
     = Inr (Some (OpAnd [BVS ''c1'' 1, BVS ''c2'' 1]))"
    by (simp add: with_condition_inside Let_def example_state_def)
  moreover have "global_condition
         (snd (with_condition example_ops (BVS ''c1'' 1)
                 (\<lambda>s'. (Inl (ValueError ''raised in the body''), s'\<lparr>global_condition := None\<rparr>))
                 ((example_state ''X86'' {})\<lparr>global_condition := Some (BVS ''c0'' 1)\<rparr>)))
       = global_condition ((example_state ''X86'' {})\<lparr>global_condition := Some (BVS ''c0'' 1)\<rparr>)"
    by (rule conjunct1 [OF with_condition_nests_and_restores])
  ultimately show ?thesis by simp
qed

section \<open>Properties of copy, widen and merge\<close>

subsection \<open>The plugins of a copy\<close>

lemma fold_register_plugin_map_of:
  "distinct (map fst plugs) \<Longrightarrow>
   map_of (plugins (fold (\<lambda>(n, p). register_plugin n p) plugs s)) k
     = (if k \<in> fst ` set plugs then map_of plugs k else map_of (plugins s) k)"
proof (induction plugs arbitrary: s)
  case Nil
  then show ?case by simp
next
  case (Cons a plugs)
  obtain n p where a: "a = (n, p)" by (cases a)
  from Cons.prems a have n: "n \<notin> fst ` set plugs" and d: "distinct (map fst plugs)"
    by auto
  have "map_of (plugins (fold (\<lambda>(n, p). register_plugin n p) (a # plugs) s)) k
      = (if k \<in> fst ` set plugs then map_of plugs k
         else map_of (plugins (register_plugin n p s)) k)"
    using Cons.IH [OF d, of "register_plugin n p s"] a by simp
  also have "\<dots> = (if k \<in> fst ` set (a # plugs) then map_of (a # plugs) k
                     else map_of (plugins s) k)"
    using n a by (auto simp: register_plugin_def map_of_setitem)
  finally show ?case .
qed

lemma SimState_map_of:
  assumes "distinct (map fst plugs)" and "k \<noteq> ''memory''" and "k \<noteq> ''registers''"
  shows "map_of (plugins (SimState a plugs opts m os)) k = map_of plugs k"
proof -
  have base: "map_of (plugins (fold (\<lambda>(n, p). register_plugin n p) plugs
        \<lparr>arch = a, options = opts, mode = m, os_name = os, plugins = [],
         satisfiable_flag = True, global_condition = None, ip_constraints = []\<rparr>)) k
      = map_of plugs k"
  proof (cases "k \<in> fst ` set plugs")
    case True
    then show ?thesis by (simp add: fold_register_plugin_map_of [OF assms(1)])
  next
    case False
    then have "map_of plugs k = None" by (simp add: map_of_eq_None_iff)
    with False show ?thesis by (simp add: fold_register_plugin_map_of [OF assms(1)])
  qed
  show ?thesis
    using assms(2,3) base
    by (simp add: SimState_def Let_def register_plugin_def map_of_setitem)
qed

lemma copy_map_of:
  assumes "copy P s = Inr c" and "distinct (map fst (plugins s))"
    and "k \<noteq> ''memory''" and "k \<noteq> ''registers''"
  shows "map_of (plugins c) k = map_option (plugin_copy P) (map_of (plugins s) k)"
proof -
  let ?c_plugins = "map (\<lambda>(n, p). (n, plugin_copy P p)) (plugins s)"
  have fst_eq: "map fst ?c_plugins = map fst (plugins s)"
    by (simp add: case_prod_beta)
  from assms(1) have c: "c = (SimState (arch s) ?c_plugins (options s) (mode s) (os_name s))
                               \<lparr>ip_constraints := ip_constraints s\<rparr>"
    by (simp add: copy_def Let_def split: if_splits)
  have d: "distinct (map fst ?c_plugins)"
    using assms(2) by (simp only: fst_eq)
  have "map_of (plugins c) k = map_of ?c_plugins k"
    using SimState_map_of [OF d assms(3) assms(4)] by (simp add: c)
  also have "\<dots> = map_option (plugin_copy P) (map_of (plugins s) k)"
    by (simp add: map_of_map)
  finally show ?thesis .
qed

subsection \<open>Widening\<close>

lemma widen_plugins_keeps_skipped:
  "widen_plugins P ps others w occ = Inr (w', occ') \<Longrightarrow>
   k \<in> {''solver_engine'', ''unicorn''} \<Longrightarrow>
   map_of (plugins w') k = map_of (plugins w) k"
proof (induction ps arbitrary: w occ)
  case Nil
  then show ?case by simp
next
  case (Cons p ps)
  show ?case
  proof (cases "p \<in> {''solver_engine'', ''unicorn''}")
    case True
    with Cons.prems have "widen_plugins P ps others w occ = Inr (w', occ')" by simp
    from Cons.IH [OF this Cons.prems(2)] show ?thesis .
  next
    case False
    with Cons.prems(1) obtain wp their wp' r where
      step: "plugin_widen P p wp their = Inr (wp', r)"
      and rest: "widen_plugins P ps others (w\<lparr>plugins := setitem (plugins w) p wp'\<rparr>) (occ \<or> r)
                 = Inr (w', occ')"
      by (simp split: sum.splits prod.splits)
    from False Cons.prems(2) have "k \<noteq> p" by auto
    with Cons.IH [OF rest Cons.prems(2)] show ?thesis
      by (simp add: map_of_setitem)
  qed
qed

lemma widen_plugins_reason:
  "widen_plugins P ps others w occ = Inr (w', occ') \<Longrightarrow> occ' \<Longrightarrow>
   occ \<or> (\<exists>p \<in> set ps. p \<noteq> ''solver_engine'' \<and> p \<noteq> ''unicorn''
           \<and> (\<exists>wp their wp'. plugin_widen P p wp their = Inr (wp', True)))"
proof (induction ps arbitrary: w occ)
  case Nil
  then show ?case by simp
next
  case (Cons p ps)
  show ?case
  proof (cases "p \<in> {''solver_engine'', ''unicorn''}")
    case True
    with Cons.prems have "widen_plugins P ps others w occ = Inr (w', occ')" by simp
    from Cons.IH [OF this Cons.prems(2)] show ?thesis by auto
  next
    case False
    with Cons.prems(1) obtain wp their wp' r where
      step: "plugin_widen P p wp their = Inr (wp', r)"
      and rest: "widen_plugins P ps others (w\<lparr>plugins := setitem (plugins w) p wp'\<rparr>) (occ \<or> r)
                 = Inr (w', occ')"
      by (simp split: sum.splits prod.splits)
    from Cons.IH [OF rest Cons.prems(2)] step False show ?thesis
      by (cases r) auto
  qed
qed

lemma widen_plugins_independent:
  "widen_plugins
     (P\<lparr>widen_plugin := (\<lambda>n. if n = ''solver_engine'' \<or> n = ''unicorn'' then f n
                             else widen_plugin P n)\<rparr>) ps others w occ
   = widen_plugins P ps others w occ"
proof (induction ps arbitrary: w occ)
  case Nil
  then show ?case by simp
next
  case (Cons p ps)
  then show ?case
    by (simp add: plugin_widen_def split: sum.splits prod.splits plugin.splits)
qed

lemma plugin_copy_independent [simp]:
  "plugin_copy (P\<lparr>widen_plugin := g\<rparr>) p = plugin_copy P p"
  by (cases p) (simp_all add: plugin_copy_def)

lemma copy_independent:
  "copy (P\<lparr>widen_plugin := g\<rparr>) s = copy P s"
  by (simp add: copy_def)

lemmas state_eval =
  merge_def make_merge_conditions_def copy_def SimState_def example_state_def example_ops_def
  keys_def getitem_def setitem_def has_plugin_def contains_def register_plugin_def
  plugin_copy_def plugin_merge_def plugin_new_def update_plugin_def get_plugin_def
  default_plugin_def se_def add_constraints_def record_constraints_def track_constraints_def
  inspect_def inspect_getattr_added_constraints_def Let_def

text \<open>
  C7. When \<open>widen\<close> returns, the plugins registered as \<open>solver_engine\<close> and
  \<open>unicorn\<close> in the widened state are the plain copies of the receiver's; the outcome
  is the same whatever the \<open>widen\<close> methods of these two plugins would do, so they
  are never invoked; and when the flag is \<open>True\<close>, the \<open>widen\<close> of a plugin under
  another name returned \<open>True\<close>.
\<close>

theorem widen_skips_solver:
  assumes "widen P self others = Inr (widened, widening_occurred)"
    and "distinct (map fst (plugins self))"
  shows "map_of (plugins widened) ''solver_engine''
           = map_option (plugin_copy P) (map_of (plugins self) ''solver_engine'')
         \<and> map_of (plugins widened) ''unicorn''
           = map_option (plugin_copy P) (map_of (plugins self) ''unicorn'')
         \<and> widen (P\<lparr>widen_plugin :=
                       (\<lambda>n. if n = ''solver_engine'' \<or> n = ''unicorn'' then f n
                            else widen_plugin P n)\<rparr>) self others
           = Inr (widened, widening_occurred)
         \<and> (widening_occurred \<longrightarrow>
              (\<exists>p \<in> set (keys (plugins self)). p \<noteq> ''solver_engine'' \<and> p \<noteq> ''unicorn''
                 \<and> (\<exists>wp their wp'. plugin_widen P p wp their = Inr (wp', True))))"
proof -
  from assms(1) obtain c where c: "copy P self = Inr c"
    and loop: "widen_plugins P (keys (plugins self)) others c False
                 = Inr (widened, widening_occurred)"
    by (simp add: widen_def split: if_splits sum.splits)
  have "map_of (plugins widened) ''solver_engine'' = map_of (plugins c) ''solver_engine''"
    using widen_plugins_keeps_skipped [OF loop] by simp
  then have solver: "map_of (plugins widened) ''solver_engine''
           = map_option (plugin_copy P) (map_of (plugins self) ''solver_engine'')"
    using copy_map_of [OF c assms(2), of "''solver_engine''"] by simp
  have "map_of (plugins widened) ''unicorn'' = map_of (plugins c) ''unicorn''"
    using widen_plugins_keeps_skipped [OF loop] by simp
  then have unicorn: "map_of (plugins widened) ''unicorn''
           = map_option (plugin_copy P) (map_of (plugins self) ''unicorn'')"
    using copy_map_of [OF c assms(2), of "''unicorn''"] by simp
  have indep: "widen (P\<lparr>widen_plugin :=
                       (\<lambda>n. if n = ''solver_engine'' \<or> n = ''unicorn'' then f n
                            else widen_plugin P n)\<rparr>) self others
           = widen P self others"
    by (simp add: widen_def copy_independent widen_plugins_independent split: sum.splits)
  have reason: "widening_occurred \<longrightarrow>
              (\<exists>p \<in> set (keys (plugins self)). p \<noteq> ''solver_engine'' \<and> p \<noteq> ''unicorn''
                 \<and> (\<exists>wp their wp'. plugin_widen P p wp their = Inr (wp', True)))"
    using widen_plugins_reason [OF loop] by blast
  from solver unicorn indep reason assms(1) show ?thesis by simp
qed

theorem widen_skips_solver_witness:
  "widen (example_ops\<lparr>widen_plugin := (\<lambda>n p others. Inr (p, n = ''memory''))\<rparr>)
         (example_state ''X86'' {}) [example_state ''X86'' {}]
     = Inr (example_state ''X86'' {}, True)
   \<and> distinct (map fst (plugins (example_state ''X86'' {})))
   \<and> map_of (plugins (example_state ''X86'' {})) ''solver_engine'' = Some (SimSolver [])"
proof -
  have w: "widen (example_ops\<lparr>widen_plugin := (\<lambda>n p others. Inr (p, n = ''memory''))\<rparr>)
         (example_state ''X86'' {}) [example_state ''X86'' {}]
     = Inr (example_state ''X86'' {}, True)"
    by (simp add: widen_def plugin_widen_def state_eval)
  have d: "distinct (map fst (plugins (example_state ''X86'' {})))"
    by (simp add: example_state_def)
  have "map_of (plugins (example_state ''X86'' {})) ''solver_engine''
          = map_option
              (plugin_copy (example_ops\<lparr>widen_plugin := (\<lambda>n p others. Inr (p, n = ''memory''))\<rparr>))
              (map_of (plugins (example_state ''X86'' {})) ''solver_engine'')"
    by (rule conjunct1 [OF widen_skips_solver [OF w d, where f = "\<lambda>n p others. Inr (p, False)"]])
  then have "map_of (plugins (example_state ''X86'' {})) ''solver_engine'' = Some (SimSolver [])"
    by (simp add: example_state_def)
  with w d show ?thesis by blast
qed

subsection \<open>Merging\<close>





text \<open>
  C3. The architecture check of \<open>merge\<close> compares the other states among
  themselves only: a receiver of another architecture than the (single) other state
  passes it and the merge returns, and a merge with no other state raises the
  architecture error although one state alone cannot disagree.
\<close>

theorem merge_architecture_check_ignores_receiver:
  "arch_name (arch (example_state ''X86'' {})) \<noteq> arch_name (arch (example_state ''AMD64'' {}))
   \<and> \<not> isl (fst (merge example_ops example_env (example_state ''X86'' {})
                      [example_state ''AMD64'' {}] None None None [] 0))
   \<and> fst (merge example_ops example_env (example_state ''X86'' {}) [] None None None [] 0)
       = Inl (SimMergeError ''Unable to merge due to different architectures.'')"
  by (simp add: state_eval string_of_nat.simps upt_rec)

subsection \<open>The flag and the options of the states returned\<close>









subsection \<open>The constraint store of a merged state\<close>

lemma get_plugin_other:
  "k \<noteq> n \<Longrightarrow> map_of (plugins (snd (get_plugin P n s))) k = map_of (plugins s) k"
  by (simp add: get_plugin_def register_plugin_def map_of_setitem Let_def split: option.splits)






















subsection \<open>The satisfiability flag\<close>








section \<open>Properties of the engine\<close>

subsection \<open>The bounds of a lift\<close>


lemma load_bytes_lifter [simp]:
  "load_bytes (V\<lparr>pyvex_IRSB := f\<rparr>) eng addr max_size state clem
     = load_bytes V eng addr max_size state clem"
  by (cases state; cases clem) (simp_all add: load_bytes_def case_prod_beta Let_def)

lemma lift_key_lifter [simp]: "lift_key (V\<lparr>pyvex_IRSB := f\<rparr>) eng a = lift_key V eng a"
  by (cases "lift_phase0 eng a"; cases "a_addr a") (simp_all add: lift_key_def case_prod_beta)

lemma first_stoppoint_loop_empty [simp]: "first_stoppoint_loop {} f ss = None"
  by (induction "{} :: int set" f ss rule: first_stoppoint_loop.induct) simp_all















subsection \<open>The block cache\<close>


lemma lru_get_Inr:
  "lru_get c k = Inr (v, c') \<longleftrightarrow> map_of c k = Some v \<and> c' = AList.delete k c @ [(k, v)]"
  by (auto simp: lru_get_def split: option.splits)





lemma first_stoppoint_cong:
  "stop_points e' = stop_points e \<Longrightarrow> first_stoppoint e' b = first_stoppoint e b"
  by (simp add: first_stoppoint_def)



declare map_of_append [simp del]












declare map_of_append [simp]






subsection \<open>Conditional exits\<close>

lemma scratch_of_map_scratch: "scratch_of P (map_scratch P f s) = f (scratch_of P s)"
  by (cases "map_of (plugins s) ''scratch''")
     (simp_all add: scratch_of_def map_scratch_def update_plugin_def get_plugin_def
        register_plugin_def map_of_setitem the_scratch_def Let_def)

lemma scratch_of_get_plugin:
  "scratch_of P (snd (get_plugin P ''scratch'' s)) = scratch_of P s"
  by (cases "map_of (plugins s) ''scratch''")
     (simp_all add: scratch_of_def get_plugin_def register_plugin_def map_of_setitem Let_def)

lemma map_scratch_frame:
  "satisfiable_flag (map_scratch P f s) = satisfiable_flag s"
  "options (map_scratch P f s) = options s"
  "global_condition (map_scratch P f s) = global_condition s"
  by (simp_all add: map_scratch_def)

lemma map_scratch_other_plugins:
  "k \<noteq> ''scratch'' \<Longrightarrow> map_of (plugins (map_scratch P f s)) k = map_of (plugins s) k"
  by (cases "map_of (plugins s) ''scratch''")
     (simp_all add: map_scratch_def update_plugin_def get_plugin_def register_plugin_def
        map_of_setitem Let_def)

text \<open>
  C2. When an \<open>Exit\<close> statement is handled under the option \<open>IGNORE_EXIT_GUARDS\<close>
  and the handler returns, the statement was translated, the successor was handed to
  the collector on a copy of the state with the exit's target, guard and jump kind, and
  the continuing state is the state after the translation with one change: the scratch
  guard has become the conjunction of the guard before and the negated exit guard. No
  constraint is added: the satisfiability flag and every plugin other than the scratch
  are as they were.
\<close>

theorem exit_with_ignored_guards:
  assumes run: "handle_statement V P E (Exit x) state succs = (Inr (), state', succs')"
    and opt: "IGNORE_EXIT_GUARDS \<in> options (snd (translate_stmt V (Exit x) state))"
  shows "\<exists>ss s3 exit_state.
      fst (translate_stmt V (Exit x) state) = Inr (Some ss)
      \<and> s3 = update_plugin P ''history'' (\<lambda>h. history_extend_actions V h (s_actions ss))
                (snd (translate_stmt V (Exit x) state))
      \<and> copy P s3 = Inr exit_state
      \<and> add_successor V succs exit_state (s_target ss) (s_guard ss) (s_jumpkind ss)
            (StmtIdx (stmt_idx (scratch_of P s3))) (ins_addr (scratch_of P s3)) = (Inr (), succs')
      \<and> state' = map_scratch P (\<lambda>sc. sc\<lparr>guard := OpAnd [guard sc, OpNot (s_guard ss)]\<rparr>)
                    (snd (get_plugin P ''scratch'' s3))
      \<and> guard (scratch_of P state') = OpAnd [guard (scratch_of P s3), OpNot (s_guard ss)]
      \<and> satisfiable_flag state' = satisfiable_flag s3
      \<and> (\<forall>k. k \<noteq> ''scratch'' \<longrightarrow> map_of (plugins state') k = map_of (plugins s3) k)"
proof -
  obtain r s2 where t: "translate_stmt V (Exit x) state = (r, s2)"
    by (cases "translate_stmt V (Exit x) state")
  from run t obtain s_stmt where r: "r = Inr s_stmt"
    by (cases r) (auto simp: handle_statement_def handle_imark_def)
  define s3 where "s3 = (case s_stmt of
                            Some ss \<Rightarrow> update_plugin P ''history''
                                         (\<lambda>h. history_extend_actions V h (s_actions ss)) s2
                          | None \<Rightarrow> s2)"
  from run t r have h: "handle_exit V P E s_stmt s3 succs = (Inr (), state', succs')"
    by (simp add: handle_statement_def handle_imark_def s3_def Let_def)
  from h obtain exit_state where c: "copy P s3 = Inr exit_state"
    by (cases "copy P s3") (auto simp: handle_exit_def)
  from h c obtain ss where ss: "s_stmt = Some ss"
    by (cases s_stmt) (auto simp: handle_exit_def)
  from ss have s3: "s3 = update_plugin P ''history''
                            (\<lambda>h. history_extend_actions V h (s_actions ss)) s2"
    by (simp add: s3_def)
  from opt t have o3: "IGNORE_EXIT_GUARDS \<in> options (snd (get_plugin P ''scratch'' s3))"
    by (simp add: s3 get_plugin_frame)
  let ?s = "snd (get_plugin P ''scratch'' s3)"
  obtain ra su where a: "add_successor V succs exit_state (s_target ss) (s_guard ss)
      (s_jumpkind ss) (StmtIdx (stmt_idx (scratch_of P s3))) (ins_addr (scratch_of P s3)) = (ra, su)"
    by (cases "add_successor V succs exit_state (s_target ss) (s_guard ss)
      (s_jumpkind ss) (StmtIdx (stmt_idx (scratch_of P s3))) (ins_addr (scratch_of P s3))")
  from h c ss o3 a have ra: "ra = Inr ()"
    by (cases ra) (auto simp: handle_exit_def Let_def scratch_of_get_plugin)
  from h c ss o3 a ra have res:
    "state' = map_scratch P (\<lambda>sc. sc\<lparr>guard := OpAnd [guard sc, OpNot (s_guard ss)]\<rparr>) ?s"
    "succs' = su"
    by (simp_all add: handle_exit_def Let_def scratch_of_get_plugin)
  have g: "guard (scratch_of P state') = OpAnd [guard (scratch_of P s3), OpNot (s_guard ss)]"
    by (simp add: res(1) scratch_of_map_scratch scratch_of_get_plugin)
  have f: "satisfiable_flag state' = satisfiable_flag s3"
    by (simp add: res(1) map_scratch_frame get_plugin_frame)
  have p: "\<forall>k. k \<noteq> ''scratch'' \<longrightarrow> map_of (plugins state') k = map_of (plugins s3) k"
    by (simp add: res(1) map_scratch_other_plugins get_plugin_other)
  from t r ss have t': "fst (translate_stmt V (Exit x) state) = Inr (Some ss)"
    by simp
  from t have s3': "s3 = update_plugin P ''history'' (\<lambda>h. history_extend_actions V h (s_actions ss))
                (snd (translate_stmt V (Exit x) state))"
    by (simp add: s3)
  from a ra res(2) have a': "add_successor V succs exit_state (s_target ss) (s_guard ss)
      (s_jumpkind ss) (StmtIdx (stmt_idx (scratch_of P s3))) (ins_addr (scratch_of P s3))
      = (Inr (), succs')"
    by simp
  from t' s3' c a' res(1) g f p show ?thesis by blast
qed

lemmas stmt_eval =
  handle_statement_def handle_imark_def handle_exit_def scratch_of_def map_scratch_def
  the_scratch_def default_scratch_def example_successors_def state_eval

lemma ex_exit:
  "handle_statement example_vex example_ops example_env (Exit 5)
     (example_state ''X86'' {IGNORE_EXIT_GUARDS}) example_successors
   = (Inr (),
      (example_state ''X86'' {IGNORE_EXIT_GUARDS})
        \<lparr>plugins :=
           plugins (example_state ''X86'' {IGNORE_EXIT_GUARDS})
           @ [(''history'', OtherPlugin ''history'' []),
              (''scratch'',
               SimStateScratch
                 (default_scratch\<lparr>guard := OpAnd [BoolV True, OpNot (BVS ''exit_guard'' 1)]\<rparr>))]\<rparr>,
      example_successors
        \<lparr>added := [((example_state ''X86'' {IGNORE_EXIT_GUARDS})
                       \<lparr>plugins := plugins (example_state ''X86'' {IGNORE_EXIT_GUARDS})
                                     @ [(''history'', OtherPlugin ''history'' [])]\<rparr>,
                    IntV 5, BVS ''exit_guard'' 1, ''Ijk_Boring'', StmtIdx 0, 0)]\<rparr>)"
  by (simp add: stmt_eval example_vex_def)

theorem exit_with_ignored_guards_counterexample:
  "IGNORE_EXIT_GUARDS \<in> options (example_state ''X86'' {IGNORE_EXIT_GUARDS})
   \<and> fst (handle_statement example_vex example_ops example_env (Exit 5)
            (example_state ''X86'' {IGNORE_EXIT_GUARDS}) example_successors) = Inr ()
   \<and> guard (scratch_of example_ops (example_state ''X86'' {IGNORE_EXIT_GUARDS})) = BoolV True
   \<and> guard (scratch_of example_ops
              (fst (snd (handle_statement example_vex example_ops example_env (Exit 5)
                           (example_state ''X86'' {IGNORE_EXIT_GUARDS}) example_successors))))
       = OpAnd [BoolV True, OpNot (BVS ''exit_guard'' 1)]
   \<and> guard (scratch_of example_ops
              (fst (snd (handle_statement example_vex example_ops example_env (Exit 5)
                           (example_state ''X86'' {IGNORE_EXIT_GUARDS}) example_successors))))
       \<noteq> guard (scratch_of example_ops (example_state ''X86'' {IGNORE_EXIT_GUARDS}))"
  by (simp add: ex_exit)
     (simp add: scratch_of_def the_scratch_def default_scratch_def get_plugin_def
        default_plugin_def example_state_def example_ops_def register_plugin_def Let_def)

theorem exit_with_ignored_guards_witness:
  "handle_statement example_vex example_ops example_env (Exit 5)
     (example_state ''X86'' {IGNORE_EXIT_GUARDS}) example_successors
   = (Inr (),
      (example_state ''X86'' {IGNORE_EXIT_GUARDS})
        \<lparr>plugins :=
           plugins (example_state ''X86'' {IGNORE_EXIT_GUARDS})
           @ [(''history'', OtherPlugin ''history'' []),
              (''scratch'',
               SimStateScratch
                 (default_scratch\<lparr>guard := OpAnd [BoolV True, OpNot (BVS ''exit_guard'' 1)]\<rparr>))]\<rparr>,
      example_successors
        \<lparr>added := [((example_state ''X86'' {IGNORE_EXIT_GUARDS})
                       \<lparr>plugins := plugins (example_state ''X86'' {IGNORE_EXIT_GUARDS})
                                     @ [(''history'', OtherPlugin ''history'' [])]\<rparr>,
                    IntV 5, BVS ''exit_guard'' 1, ''Ijk_Boring'', StmtIdx 0, 0)]\<rparr>)
   \<and> IGNORE_EXIT_GUARDS
       \<in> options (snd (translate_stmt example_vex (Exit 5) (example_state ''X86'' {IGNORE_EXIT_GUARDS})))
   \<and> (\<exists>ss. fst (translate_stmt example_vex (Exit 5) (example_state ''X86'' {IGNORE_EXIT_GUARDS}))
              = Inr (Some ss))"
proof -
  have o: "IGNORE_EXIT_GUARDS
       \<in> options (snd (translate_stmt example_vex (Exit 5) (example_state ''X86'' {IGNORE_EXIT_GUARDS})))"
    by (simp add: example_vex_def example_state_def)
  from exit_with_ignored_guards [OF ex_exit o]
  have "\<exists>ss. fst (translate_stmt example_vex (Exit 5) (example_state ''X86'' {IGNORE_EXIT_GUARDS}))
              = Inr (Some ss)"
    by blast
  with ex_exit o show ?thesis by blast
qed

subsection \<open>Explicit bytes and re-lifting\<close>

lemma process_iteration_insn_bytes:
  assumes "p_insn_bytes args \<noteq> None"
  shows "\<exists>r eng' s' succs'.
           process_iteration V P E args eng state succs blk addr sz num_inst
             = Finished r eng' s' succs'"
proof (cases "prepare_block V P args eng state blk addr sz num_inst")
  case (fields r eng1 st)
  show ?thesis
  proof (cases r)
    case (Inl e)
    with fields show ?thesis by (simp add: process_iteration_def)
  next
    case (Inr b)
    obtain rh s3 succs3 where h: "handle_irsb V P E st succs b (p_skip_stmts args)
        (p_last_stmt args) (p_whitelist args) = (rh, s3, succs3)"
      by (cases "handle_irsb V P E st succs b (p_skip_stmts args)
        (p_last_stmt args) (p_whitelist args)")
    show ?thesis
    proof (cases rh)
      case (Inl e)
      with fields Inr h assms show ?thesis
        by (cases e) (simp_all add: process_iteration_def)
    next
      case (Inr u)
      with fields \<open>r = Inr b\<close> h show ?thesis
        by (simp add: process_iteration_def)
    qed
  qed
qed

lemma process_iteration_relift:
  assumes "p_insn_bytes args \<noteq> None"
    and "prepare_block V P args eng state blk addr sz num_inst = (Inr b, eng1, state2)"
    and "handle_irsb V P E state2 succs b (p_skip_stmts args) (p_last_stmt args)
           (p_whitelist args) = (Inl SimReliftException, s4, succs2)"
  shows "process_iteration V P E args eng state succs blk addr sz num_inst
           = Finished (Inl (SimEngineError ''You cannot pass self-modifying code as insn_bytes!!!''))
               eng1 s4 succs2"
  using assms by (simp add: process_iteration_def)

text \<open>
  C5. A call of \<open>_process\<close> with explicit \<open>insn_bytes\<close> always returns, after one
  pass of the loop; and when the block handler raises \<open>SimReliftException\<close> in that
  pass, the call raises \<open>SimEngineError\<close> to its caller, with the engine, the state
  and the successors as the handler left them.
\<close>

theorem process_rejects_relift_with_insn_bytes:
  assumes "p_insn_bytes args \<noteq> None"
  shows "(\<exists>r. process V P E eng state succs args = Some r)
     \<and> (\<forall>s3 succs1 b eng1 state2 s4 succs2.
          process_start V P E state succs = (s3, succs1)
          \<and> prepare_block V P args eng s3 (p_irsb args) (succ_addr succs1) (p_size args)
                (p_num_inst args) = (Inr b, eng1, state2)
          \<and> handle_irsb V P E state2 succs1 b (p_skip_stmts args) (p_last_stmt args)
                (p_whitelist args) = (Inl SimReliftException, s4, succs2)
          \<longrightarrow> process V P E eng state succs args
                = Some (Inl (SimEngineError
                               ''You cannot pass self-modifying code as insn_bytes!!!''),
                        eng1, s4, succs2))"
proof -
  obtain s3 succs1 where st: "process_start V P E state succs = (s3, succs1)"
    by (cases "process_start V P E state succs")
  from process_iteration_insn_bytes [OF assms] obtain r eng' s' succs' where
    it: "process_iteration V P E args eng s3 succs1 (p_irsb args) (succ_addr succs1)
           (p_size args) (p_num_inst args) = Finished r eng' s' succs'"
    by blast
  have loop: "process_loop V P E args eng s3 succs1 (p_irsb args) (succ_addr succs1)
           (p_size args) (p_num_inst args) = Some (r, eng', s', succs')"
    by (subst process_loop.simps) (simp add: it)
  have returns: "\<exists>r. process V P E eng state succs args = Some r"
    by (cases r) (simp_all add: process_def st loop)
  have rejects: "\<forall>s3' succs1' b eng1 state2 s4 succs2.
          process_start V P E state succs = (s3', succs1')
          \<and> prepare_block V P args eng s3' (p_irsb args) (succ_addr succs1') (p_size args)
                (p_num_inst args) = (Inr b, eng1, state2)
          \<and> handle_irsb V P E state2 succs1' b (p_skip_stmts args) (p_last_stmt args)
                (p_whitelist args) = (Inl SimReliftException, s4, succs2)
          \<longrightarrow> process V P E eng state succs args
                = Some (Inl (SimEngineError
                               ''You cannot pass self-modifying code as insn_bytes!!!''),
                        eng1, s4, succs2)"
  proof (intro allI impI, elim conjE)
    fix s3' succs1' b eng1 state2 s4 succs2
    assume a: "process_start V P E state succs = (s3', succs1')"
      and p: "prepare_block V P args eng s3' (p_irsb args) (succ_addr succs1') (p_size args)
                (p_num_inst args) = (Inr b, eng1, state2)"
      and h: "handle_irsb V P E state2 succs1' b (p_skip_stmts args) (p_last_stmt args)
                (p_whitelist args) = (Inl SimReliftException, s4, succs2)"
    from a st have e: "s3' = s3" "succs1' = succs1" by simp_all
    from process_iteration_relift [OF assms p h] it e have
      "r = Inl (SimEngineError ''You cannot pass self-modifying code as insn_bytes!!!'')"
      "eng' = eng1" "s' = s4" "succs' = succs2"
      by simp_all
    then show "process V P E eng state succs args
                = Some (Inl (SimEngineError
                               ''You cannot pass self-modifying code as insn_bytes!!!''),
                        eng1, s4, succs2)"
      by (simp add: process_def st loop)
  qed
  from returns rejects show ?thesis by blast
qed

lemmas process_eval =
  process_start_def prepare_block_def check_permissions_def handle_irsb_def
  instruction_after_def example_process_args_def example_dirty_state_def example_engine_def
  example_vex_def stmt_eval

theorem process_rejects_relift_with_insn_bytes_witness:
  "p_insn_bytes example_process_args \<noteq> None
   \<and> map_option fst
        (process example_vex example_ops example_env example_engine example_dirty_state
           example_successors example_process_args)
       = Some (Inl (SimEngineError ''You cannot pass self-modifying code as insn_bytes!!!''))"
proof -
  define st where "st = process_start example_vex example_ops example_env example_dirty_state
                          example_successors"
  define X where "X = prepare_block example_vex example_ops example_process_args example_engine
                        (fst st) (p_irsb example_process_args) (succ_addr (snd st))
                        (p_size example_process_args) (p_num_inst example_process_args)"
  define b where "b = \<lparr>irsb_id = 0, statements = [IMark 0 2 0], irsb_size = 2, irsb_next = 0,
                      irsb_jumpkind = ''Ijk_Boring'', direct_next = True, irsb_tyenv = 0\<rparr>"
  define H where "H = handle_irsb example_vex example_ops example_env (snd (snd X)) (snd st) b
                        (p_skip_stmts example_process_args) (p_last_stmt example_process_args)
                        (p_whitelist example_process_args)"
  have ib: "p_insn_bytes example_process_args \<noteq> None"
    by (simp add: example_process_args_def)
  have "fst X = Inr b"
    by (simp add: X_def st_def b_def process_eval)
  then have x: "X = (Inr b, fst (snd X), snd (snd X))"
    by (simp add: prod_eq_iff)
  have "fst H = Inl SimReliftException"
    by (simp add: H_def X_def st_def b_def process_eval upt_rec)
  then have h: "H = (Inl SimReliftException, fst (snd H), snd (snd H))"
    by (simp add: prod_eq_iff)
  have s: "process_start example_vex example_ops example_env example_dirty_state
             example_successors = (fst st, snd st)"
    by (simp add: st_def)
  from process_rejects_relift_with_insn_bytes [OF ib, of example_vex example_ops example_env
      example_engine example_dirty_state example_successors]
    s x [unfolded X_def] h [unfolded H_def]
  have "process example_vex example_ops example_env example_engine example_dirty_state
           example_successors example_process_args
        = Some (Inl (SimEngineError ''You cannot pass self-modifying code as insn_bytes!!!''),
                fst (snd X), fst (snd H), snd (snd H))"
    unfolding X_def H_def by blast
  with ib show ?thesis by simp
qed

end
